theory Spec2Isabelle
  imports Main "HOL-Library.Word"
begin

section \<open>Data model of the blockchain controller\<close>

text \<open>
  A \<open>Buffer\<close> is a list of bytes. A \<open>Quantity\<close> built from a header field or from a
  non-negative literal is a natural number; a \<open>Quantity\<close> handed in by a caller (a snapshot
  id, a gas amount) is an integer, because the code compares it with \<open>1n\<close> and \<open>0\<close>.
  JavaScript numbers that hold times are whole milliseconds or seconds and are integers
  here; \<open>Math.floor (x / 1000)\<close> is \<open>x div 1000\<close>, which rounds down on \<open>int\<close>.
  A JavaScript string whose \<open>length\<close> the code reads is the list of its 16-bit code
  units, the unit \<open>length\<close> counts in.
\<close>

type_synonym buffer = "8 word list"

type_synonym js_string = "16 word list"

record header =
  parentHash :: buffer
  number :: nat
  coinbase :: buffer
  timestamp :: int
  gasLimit :: nat
  gasUsed :: nat
  stateRoot :: buffer
  transactionsTrie :: buffer
  receiptTrie :: buffer
  extraData :: buffer

text \<open>The VM's error codes; the controller itself only names \<open>ERROR.OUT_OF_GAS\<close>.\<close>

datatype ERROR = OUT_OF_GAS | REVERT | OTHER_VM_ERROR string

text \<open>
  The part of the VM's \<open>EVMResult\<close> the controller reads or builds: \<open>execResult\<close> with
  \<open>runState.programCounter\<close>, \<open>exceptionError\<close> and \<open>returnValue\<close>.
\<close>

record ExecResult =
  runState_programCounter :: nat
  exceptionError :: "ERROR option"
  returnValue :: "buffer option"

record EVMResult =
  execResult :: ExecResult

datatype RETURN_TYPES = TRANSACTION_HASH | RETURN_VALUE

text \<open>\<open>new RuntimeError (hash, result, returnType)\<close>.\<close>

datatype RuntimeError_t = RuntimeError buffer EVMResult RETURN_TYPES

type_synonym tx_log = "buffer \<times> buffer list \<times> buffer"

record receipt =
  contractAddress :: "buffer option"
  receipt_gasUsed :: nat

text \<open>
  A pool or block transaction, with what the controller reads from it: \<open>tx.hash ()\<close>,
  \<open>tx.raw\<close>, \<open>tx.type\<close>, \<open>tx.from\<close>, \<open>tx.getReceipt ()\<close>, \<open>tx.getLogs ()\<close> and
  \<open>tx.execException\<close>.
\<close>

record transaction =
  tx_hash :: buffer
  tx_raw :: "buffer list"
  tx_type :: "8 word"
  tx_from :: buffer
  tx_receipt :: receipt
  tx_logs :: "tx_log list"
  execException :: "RuntimeError_t option"

record block =
  header :: header
  transactions :: "transaction list"

text \<open>What the miner hands over with its \<open>block\<close> event.\<close>

record blockData =
  bd_timestamp :: int
  bd_transactionsTrie :: buffer
  bd_receiptTrie :: buffer
  bd_gasUsed :: nat
  blockTransactions :: "transaction list"

record blockLogs =
  bl_blockHash :: buffer
  bl_blockNumber :: "nat option"
  bl_logs :: "(nat \<times> buffer \<times> tx_log) list"

subsection \<open>Options\<close>

datatype coinbase_option = CoinbaseString js_string | CoinbaseNumber int | CoinbaseAddress buffer

record miner_options =
  blockTime :: int
  gasPrice :: nat
  blockGasLimit :: nat
  defaultTransactionGasLimit :: nat
  callGasLimit :: nat
  miner_coinbase :: coinbase_option
  legacyInstamine :: bool
  miner_extraData :: "js_string option"

datatype hardfork = Byzantium | Constantinople | Petersburg | Istanbul | MuirGlacier

record chain_options =
  vmErrorsOnRPCResponse :: bool
  allowUnlimitedContractSize :: bool
  chain_time :: "int option"
  chain_hardfork :: hardfork

record options =
  miner :: miner_options
  chain :: chain_options

subsection \<open>The controller's state\<close>

text \<open>
  One entry of \<open>#snapshots.snaps\<close>: the head block and the time offset at capture time.
\<close>

record snapshot_entry =
  snap_block :: block
  snap_timeAdjustment :: int

text \<open>
  \<open>#snapshots\<close>. The linked list \<open>blocks\<close> of \<open>{current, next}\<close> cells is the list of
  its \<open>current\<close> hashes, newest first, and \<open>null\<close> is \<open>[]\<close>. \<open>unsubscribeFromBlocks\<close>
  is \<open>None\<close> while the field is \<open>null\<close>; \<open>Some True\<close> while the \<open>block\<close> listener that
  \<open>snapshot\<close> installed is subscribed, \<open>Some False\<close> once the function has been called.
\<close>

record Snapshots =
  snaps :: "snapshot_entry list"
  blocks :: "buffer list"
  unsubscribeFromBlocks :: "bool option"

text \<open>The \<open>blocks\<close> store is keyed both by block number and by block hash.\<close>

datatype block_key = ByNumber nat | ByHash buffer

record stored_transaction =
  st_raw :: "buffer list"
  st_blockHash :: buffer
  st_blockNumber :: nat
  st_index :: nat
  st_type :: "8 word"
  st_from :: buffer

text \<open>What the controller does besides changing its own fields, in the order it does it.\<close>

datatype effect =
  Finalize buffer string "RuntimeError_t option"
| NextTick
| Emit_blockLogs blockLogs
| Emit_block block

datatype log_line =
  Log_blank
| Log_transaction buffer
| Log_contract_created buffer
| Log_gas_usage nat
| Log_block_number nat
| Log_block_time int
| Log_runtime_error RuntimeError_t
| Log_saved_snapshot nat
| Log_reverting_to_snapshot int

record blockchain =
  opts :: options
  instamine :: bool
  bc_coinbase :: buffer
  blocks_latest :: block
  db_blocks :: "block_key \<rightharpoonup> block"
  db_transactions :: "buffer \<rightharpoonup> stored_transaction"
  db_transactionReceipts :: "buffer \<rightharpoonup> receipt"
  db_blockLogs :: "nat \<rightharpoonup> blockLogs"
  db_trie :: "buffer \<rightharpoonup> buffer"
  trie_root :: buffer
  pool :: "transaction list"
  pool_paused :: bool
  miner_paused :: bool
  timeAdjustment :: int
  snapshots :: Snapshots
  trace :: "effect list"
  logger :: "log_line list"

section \<open>The clock\<close>

text \<open>
  \<open>Date.now ()\<close> is an input of the model: every function that reads the wall clock takes
  the current time in milliseconds as its argument \<open>now\<close>.
\<close>

definition currentTime :: "int \<Rightarrow> blockchain \<Rightarrow> int" where
  "currentTime now st = (now + timeAdjustment st) div 1000"

definition increaseTime :: "int \<Rightarrow> blockchain \<Rightarrow> int \<times> blockchain" where
  "increaseTime seconds st =
     (let seconds' = (if seconds < 0 then 0 else seconds);
          t = timeAdjustment st + seconds'
      in (t, st\<lparr>timeAdjustment := t\<rparr>))"

definition setTime :: "int \<Rightarrow> int \<Rightarrow> blockchain \<Rightarrow> int \<times> blockchain" where
  "setTime now timestamp' st =
     (let t = timestamp' - now in (t, st\<lparr>timeAdjustment := t\<rparr>))"

section \<open>Filling, saving and announcing a block\<close>

text \<open>
  \<open>header.hash ()\<close> is the Keccak hash of the encoded header. The model takes it as a
  function \<open>H\<close> of the header, an argument of every operation that hashes a header.
\<close>

text \<open>
  Modelled from the spec: \<open>BlockManager.createBlock\<close> is not among the sources. The spec
  describes a block as a header of ten fields plus its ordered transactions, and the
  controller calls \<open>createBlock\<close> with an object literal of header fields. The model takes
  the literal as the function that assigns these fields, applies it to a header whose
  fields are all empty, and gives the new block no transactions.
\<close>

definition emptyHeader :: header where
  "emptyHeader =
     \<lparr>parentHash = [], number = 0, coinbase = [], timestamp = 0, gasLimit = 0, gasUsed = 0,
      stateRoot = [], transactionsTrie = [], receiptTrie = [], extraData = []\<rparr>"

definition createBlock :: "(header \<Rightarrow> header) \<Rightarrow> block" where
  "createBlock literal = \<lparr>header = literal emptyHeader, transactions = []\<rparr>"

definition fillNewBlock :: "(header \<Rightarrow> buffer) \<Rightarrow> blockData \<Rightarrow> blockchain \<Rightarrow> block" where
  "fillNewBlock H bd st =
     (let prevBlock = blocks_latest st;
          prevHeader = header prevBlock;
          prevNumber = number prevHeader;
          block = createBlock (\<lambda>h. h
            \<lparr>parentHash := H prevHeader,
             number := prevNumber + 1,
             coinbase := bc_coinbase st,
             timestamp := bd_timestamp bd,
             gasLimit := blockGasLimit (miner (opts st)),
             transactionsTrie := bd_transactionsTrie bd,
             receiptTrie := bd_receiptTrie bd,
             stateRoot := trie_root st,
             gasUsed := bd_gasUsed bd\<rparr>)
      in block\<lparr>transactions := blockTransactions bd\<rparr>)"

definition logTransaction ::
  "buffer \<Rightarrow> receipt \<Rightarrow> nat \<Rightarrow> int \<Rightarrow> RuntimeError_t option \<Rightarrow> log_line list" where
  "logTransaction hash rcpt blockNumber ts error =
     [Log_blank, Log_transaction hash]
     @ (case contractAddress rcpt of None \<Rightarrow> [] | Some a \<Rightarrow> [Log_contract_created a])
     @ [Log_gas_usage (receipt_gasUsed rcpt), Log_block_number blockNumber, Log_block_time ts]
     @ (case error of None \<Rightarrow> [] | Some e \<Rightarrow> [Log_runtime_error e])
     @ [Log_blank]"

text \<open>
  The body of \<open>value.transactions.forEach\<close> in \<open>#saveNewBlock\<close>, for the transaction at
  index \<open>i\<close>: it stores the transaction and its receipt under the transaction's hash,
  appends the transaction's logs to the block's logs and writes the log lines.
\<close>

definition saveTransaction ::
  "buffer \<Rightarrow> nat \<Rightarrow> int \<Rightarrow> (nat \<times> transaction) \<Rightarrow> (blockLogs \<times> blockchain) \<Rightarrow> (blockLogs \<times> blockchain)" where
  "saveTransaction blockHash blockNumber ts itx acc =
     (case itx of (i, tx) \<Rightarrow> case acc of (bl, st) \<Rightarrow>
       (let hash = tx_hash tx;
            encodedTx = \<lparr>st_raw = tx_raw tx, st_blockHash = blockHash,
                         st_blockNumber = blockNumber, st_index = i,
                         st_type = tx_type tx, st_from = tx_from tx\<rparr>;
            rcpt = tx_receipt tx
        in (bl\<lparr>bl_logs := bl_logs bl @ map (\<lambda>l. (i, hash, l)) (tx_logs tx)\<rparr>,
            st\<lparr>db_transactions := (db_transactions st)(hash \<mapsto> encodedTx),
               db_transactionReceipts := (db_transactionReceipts st)(hash \<mapsto> rcpt),
               logger := logger st @ logTransaction hash rcpt blockNumber ts (execException tx)\<rparr>)))"

text \<open>
  Modelled from the spec: \<open>BlockManager.putBlock\<close> is not among the sources; the spec has
  the block written by number and by hash.
\<close>

definition putBlock :: "(header \<Rightarrow> buffer) \<Rightarrow> block \<Rightarrow> blockchain \<Rightarrow> blockchain" where
  "putBlock H b st =
     st\<lparr>db_blocks := (db_blocks st)
          (ByNumber (number (header b)) \<mapsto> b, ByHash (H (header b)) \<mapsto> b)\<rparr>"

definition saveNewBlock ::
  "(header \<Rightarrow> buffer) \<Rightarrow> block \<Rightarrow> blockchain \<Rightarrow> (block \<times> blockLogs) \<times> blockchain" where
  "saveNewBlock H b st =
     (let st1 = st\<lparr>blocks_latest := b\<rparr>;
          hdr = header b;
          blockHash = H hdr;
          blockNumber = number hdr;
          bl0 = \<lparr>bl_blockHash = blockHash, bl_blockNumber = None, bl_logs = []\<rparr>;
          txs = transactions b;
          (bl1, st2) = foldl (\<lambda>acc itx. saveTransaction blockHash blockNumber (timestamp hdr) itx acc)
                         (bl0, st1) (zip [0..<length txs] txs);
          bl2 = bl1\<lparr>bl_blockNumber := Some blockNumber\<rparr>;
          st3 = st2\<lparr>db_blockLogs := (db_blockLogs st2)(blockNumber \<mapsto> bl2)\<rparr>
      in ((b, bl2), putBlock H b st3))"

text \<open>
  \<open>this.emit ("blockLogs", blockLogs)\<close> and \<open>this.emit ("block", block)\<close>. The only
  \<open>block\<close> listener the controller installs itself is the one of \<open>snapshot\<close>, which pushes
  the block's hash onto \<open>#snapshots.blocks\<close>.
\<close>

definition emit_blockLogs :: "blockLogs \<Rightarrow> blockchain \<Rightarrow> blockchain" where
  "emit_blockLogs bl st = st\<lparr>trace := trace st @ [Emit_blockLogs bl]\<rparr>"

definition emit_block :: "(header \<Rightarrow> buffer) \<Rightarrow> block \<Rightarrow> blockchain \<Rightarrow> blockchain" where
  "emit_block H b st =
     (let st1 = st\<lparr>trace := trace st @ [Emit_block b]\<rparr>;
          sn = snapshots st1
      in if unsubscribeFromBlocks sn = Some True
         then st1\<lparr>snapshots := sn\<lparr>blocks := H (header b) # blocks sn\<rparr>\<rparr>
         else st1)"

definition finalize :: "string \<Rightarrow> RuntimeError_t option \<Rightarrow> transaction \<Rightarrow> effect" where
  "finalize status error tx = Finalize (tx_hash tx) status error"

text \<open>
  \<open>#emitNewBlock\<close>. In legacy instamine mode the two emissions run in the callback of
  \<open>process.nextTick\<close>, which the function awaits: the trace records the hand-over as
  \<open>NextTick\<close>, then the callback's emissions.
\<close>

definition emitNewBlock ::
  "(header \<Rightarrow> buffer) \<Rightarrow> (block \<times> blockLogs) \<Rightarrow> blockchain \<Rightarrow> (block \<times> blockLogs) \<times> blockchain" where
  "emitNewBlock H blockInfo st =
     (case blockInfo of (b, bl) \<Rightarrow>
       (let vmErrors = vmErrorsOnRPCResponse (chain (opts st));
            st1 = st\<lparr>trace := trace st @
                     map (\<lambda>tx. finalize ''confirmed''
                                  (if vmErrors then execException tx else None) tx)
                         (transactions b)\<rparr>;
            st2 = (if instamine st1 \<and> legacyInstamine (miner (opts st1))
                   then emit_block H b (emit_blockLogs bl (st1\<lparr>trace := trace st1 @ [NextTick]\<rparr>))
                   else emit_block H b (emit_blockLogs bl st1))
        in (blockInfo, st2)))"

text \<open>
  \<open>#handleNewBlockData\<close>: the promise chain fill, save, emit, run after the save that is
  in flight has finished. The model runs the three steps in this order on the state.
\<close>

definition handleNewBlockData ::
  "(header \<Rightarrow> buffer) \<Rightarrow> blockData \<Rightarrow> blockchain \<Rightarrow> (block \<times> blockLogs) \<times> blockchain" where
  "handleNewBlockData H bd st =
     (let b = fillNewBlock H bd st;
          (blockInfo, st1) = saveNewBlock H b st
      in emitNewBlock H blockInfo st1)"

text \<open>\<open>#readyNextBlock\<close>: the candidate header the miner starts from.\<close>

definition readyNextBlock ::
  "(header \<Rightarrow> buffer) \<Rightarrow> int \<Rightarrow> block \<Rightarrow> int option \<Rightarrow> blockchain \<Rightarrow> block" where
  "readyNextBlock H now previousBlock timestamp' st =
     (let previousHeader = header previousBlock;
          previousNumber = number previousHeader
      in createBlock (\<lambda>h. h
           \<lparr>number := previousNumber + 1,
            gasLimit := blockGasLimit (miner (opts st)),
            timestamp := (case timestamp' of None \<Rightarrow> currentTime now st | Some t \<Rightarrow> t),
            parentHash := H previousHeader\<rparr>))"

section \<open>Snapshots\<close>

text \<open>
  \<open>snapshot\<close>: the new entry, the id, and with the first live snapshot the subscription
  of the listener that records the hashes of the blocks announced from then on.
\<close>

definition snapshot :: "blockchain \<Rightarrow> nat \<times> blockchain" where
  "snapshot st =
     (let sn = snapshots st;
          snaps' = snaps sn @ [\<lparr>snap_block = blocks_latest st,
                                 snap_timeAdjustment = timeAdjustment st\<rparr>];
          id = length snaps';
          sn1 = sn\<lparr>snaps := snaps'\<rparr>;
          sn2 = (if id = 1 then sn1\<lparr>unsubscribeFromBlocks := Some True\<rparr> else sn1)
      in (id, st\<lparr>snapshots := sn2, logger := logger st @ [Log_saved_snapshot id]\<rparr>))"

text \<open>
  What \<open>revert\<close> can end with besides a returned boolean: the error it throws itself,
  the \<open>TypeError\<close> of calling \<open>unsubscribeFromBlocks\<close> while it is \<open>null\<close>, and the
  rejection of a \<open>getByHash\<close> that finds no block.
\<close>

datatype error = Invalid_snapshotId | Not_a_function | Block_not_found buffer

text \<open>
  The \<open>while\<close> loop of \<open>revert\<close> over \<open>#snapshots.blocks\<close>: it returns the hashes it
  asked \<open>getByHash\<close> for, in the order of the calls, and the cell it stopped at.
\<close>

fun walkBlockList :: "buffer \<Rightarrow> buffer list \<Rightarrow> buffer list \<times> buffer list" where
  "walkBlockList snapshotHash [] = ([], [])"
| "walkBlockList snapshotHash (current # next) =
     (if current = snapshotHash then ([], current # next)
      else (let (hs, blockList) = walkBlockList snapshotHash next in (current # hs, blockList)))"

text \<open>
  Modelled from the spec: \<open>BlockManager.getByHash\<close> is not among the sources; a store's
  \<open>get\<close> gives the value or not-found. \<open>Promise.all\<close> over the lookups gives the blocks
  in the order of the calls, or the first rejection.
\<close>

definition getByHash :: "blockchain \<Rightarrow> buffer \<Rightarrow> error + block" where
  "getByHash st h = (case db_blocks st (ByHash h) of None \<Rightarrow> Inl (Block_not_found h) | Some b \<Rightarrow> Inr b)"

fun promise_all :: "(error + 'a) list \<Rightarrow> error + 'a list" where
  "promise_all [] = Inr []"
| "promise_all (Inl e # ps) = Inl e"
| "promise_all (Inr x # ps) = (case promise_all ps of Inl e \<Rightarrow> Inl e | Inr xs \<Rightarrow> Inr (x # xs))"

definition deleteTransaction :: "blockchain \<Rightarrow> transaction \<Rightarrow> blockchain" where
  "deleteTransaction st tx =
     st\<lparr>db_transactions := (db_transactions st)(tx_hash tx := None),
        db_transactionReceipts := (db_transactionReceipts st)(tx_hash tx := None)\<rparr>"

definition deleteBlock :: "(header \<Rightarrow> buffer) \<Rightarrow> blockchain \<Rightarrow> block \<Rightarrow> blockchain" where
  "deleteBlock H st b =
     (let st1 = foldl deleteTransaction st (transactions b)
      in st1\<lparr>db_blocks := (db_blocks st1)
                 (ByNumber (number (header b)) := None, ByHash (H (header b)) := None),
             db_blockLogs := (db_blockLogs st1)(number (header b) := None)\<rparr>)"

definition deleteBlockData :: "(header \<Rightarrow> buffer) \<Rightarrow> block list \<Rightarrow> blockchain \<Rightarrow> blockchain" where
  "deleteBlockData H blocksToDelete st = foldl (deleteBlock H) st blocksToDelete"

text \<open>
  \<open>setStateRootSync\<close> sets the root of the state manager's trie, which is the controller's
  trie, and drops the state manager's caches, which the model does not hold.
\<close>

definition setStateRootSync :: "buffer \<Rightarrow> blockchain \<Rightarrow> blockchain" where
  "setStateRootSync root st = st\<lparr>trie_root := root\<rparr>"

text \<open>
  \<open>revert\<close>, in three parts. The last part is the code from the comparison of the two
  hashes on: the clean-up of the blocks added since the snapshot, the time offset, and the
  two \<open>resume\<close> calls.
\<close>

definition revert_blocks ::
  "(header \<Rightarrow> buffer) \<Rightarrow> snapshot_entry \<Rightarrow> buffer \<Rightarrow> blockchain \<Rightarrow> (error + bool) \<times> blockchain" where
  "revert_blocks H snap currentHash st =
     (let snapshotBlock = snap_block snap;
          snapshotHeader = header snapshotBlock;
          snapshotHash = H snapshotHeader;
          finish = (\<lambda>s. (Inr True, s\<lparr>timeAdjustment := snap_timeAdjustment snap,
                                       miner_paused := False, pool_paused := False\<rparr>))
      in if currentHash \<noteq> snapshotHash
         then (let (hs, blockList) = walkBlockList snapshotHash (blocks (snapshots st));
                   blockPromises = map (getByHash st) hs;
                   st1 = st\<lparr>snapshots := (snapshots st)\<lparr>blocks := blockList\<rparr>\<rparr>
               in case promise_all blockPromises of
                    Inl e \<Rightarrow> (Inl e, st1)
                  | Inr bs \<Rightarrow>
                      finish ((setStateRootSync (stateRoot snapshotHeader) (deleteBlockData H bs st1))
                                \<lparr>blocks_latest := snapshotBlock\<rparr>))
         else finish st)"

text \<open>
  Modelled from the spec: the transaction pool and the miner are not among the sources.
  \<open>pause\<close> and \<open>resume\<close> suspend and resume them, which the model keeps as a flag for
  each, and \<open>clear\<close> drops all pool entries.

  The middle part of \<open>revert\<close>: the pool and the miner are paused, the pool is cleared,
  the snapshot and all later ones are spliced off, and the \<open>block\<close> listener is removed
  when no snapshot is left. The calls of the model run one after the other, so no save is
  in flight when \<open>revert\<close> awaits it.
\<close>

definition revert_snapshot ::
  "(header \<Rightarrow> buffer) \<Rightarrow> nat \<Rightarrow> blockchain \<Rightarrow> (error + bool) \<times> blockchain" where
  "revert_snapshot H snapshotIndex st =
     (let snap = snaps (snapshots st) ! snapshotIndex;
          st1 = st\<lparr>pool_paused := True, miner_paused := True\<rparr>;
          st2 = st1\<lparr>pool := []\<rparr>;
          currentHash = H (header (blocks_latest st2));
          snaps' = take snapshotIndex (snaps (snapshots st2));
          st3 = st2\<lparr>snapshots := (snapshots st2)\<lparr>snaps := snaps'\<rparr>\<rparr>
      in if length snaps' = 0
         then (case unsubscribeFromBlocks (snapshots st3) of
                 None \<Rightarrow> (Inl Not_a_function, st3)
               | Some _ \<Rightarrow>
                   revert_blocks H snap currentHash
                     (st3\<lparr>snapshots := (snapshots st3)\<lparr>unsubscribeFromBlocks := Some False\<rparr>\<rparr>))
         else revert_blocks H snap currentHash st3)"

text \<open>
  The first part: the checks of the id. \<open>snapshotId.valueOf ()\<close> is \<open>None\<close> for \<open>null\<close>
  and \<open>undefined\<close>. \<open>Number (rawValue - 1n)\<close> is exact below \<open>2 ^ 53\<close> and not smaller
  than \<open>2 ^ 53\<close> from there on, where no array has an element, so the index read is
  \<open>rawValue - 1\<close> and \<open>snaps[snapshotIndex]\<close> is \<open>undefined\<close> when the index is not below
  the length.
\<close>

definition revert :: "(header \<Rightarrow> buffer) \<Rightarrow> int option \<Rightarrow> blockchain \<Rightarrow> (error + bool) \<times> blockchain" where
  "revert H snapshotId st =
     (case snapshotId of
        None \<Rightarrow> (Inl Invalid_snapshotId, st)
      | Some rawValue \<Rightarrow>
          (let st1 = st\<lparr>logger := logger st @ [Log_reverting_to_snapshot rawValue]\<rparr>
           in if rawValue < 1 then (Inr False, st1)
              else (let snapshotIndex = nat (rawValue - 1)
                    in if length (snaps (snapshots st1)) \<le> snapshotIndex then (Inr False, st1)
                       else revert_snapshot H snapshotIndex st1)))"

section \<open>Simulating a transaction\<close>

record SimulationTransaction =
  sim_from :: buffer
  sim_to :: "buffer option"
  sim_gas :: int
  sim_gasPrice :: nat
  sim_value :: "nat option"
  sim_data :: "buffer option"
  sim_block :: block

text \<open>The argument of \<open>vm.runCall\<close>.\<close>

record runCallOpts =
  rc_caller :: buffer
  rc_data :: "buffer option"
  rc_gasPrice :: nat
  rc_gasLimit :: int
  rc_to :: "buffer option"
  rc_value :: "nat option"
  rc_block :: block

text \<open>
  What \<open>createVmFromStateTrie\<close> gives the VM: the state trie (the trie's store and the
  root it is opened at), the contract-size switch, and \<open>getBlock\<close>, which reads the
  \<open>blocks\<close> store by number.
\<close>

record VM =
  vm_stateTrie :: "(buffer \<rightharpoonup> buffer) \<times> buffer"
  vm_allowUnlimitedContractSize :: bool
  vm_getBlock :: "nat \<rightharpoonup> block"

definition createVmFromStateTrie :: "(buffer \<rightharpoonup> buffer) \<times> buffer \<Rightarrow> bool \<Rightarrow> blockchain \<Rightarrow> VM" where
  "createVmFromStateTrie stateTrie allowUnlimited st =
     \<lparr>vm_stateTrie = stateTrie, vm_allowUnlimitedContractSize = allowUnlimited,
      vm_getBlock = (\<lambda>n. db_blocks st (ByNumber n))\<rparr>"

text \<open>
  Modelled from the spec: the EVM is an external collaborator, consumed as a black box
  \<open>runCall (params)\<close> over a supplied state trie that gives \<open>{returnValue, exceptionError?}\<close>.
  It is the argument \<open>runCall\<close>. \<open>Transaction.calculateIntrinsicGas\<close> is not among the
  sources either and is the argument \<open>calculateIntrinsicGas\<close>.

  The first half of \<open>simulateTransaction\<close>, up to the value of \<open>result\<close>. The controller
  made \<open>this.vm\<close> with \<open>options.chain.allowUnlimitedContractSize\<close>, which is where
  \<open>this.vm.allowUnlimitedContractSize\<close> is read from here.
\<close>

definition simulate_result ::
  "(VM \<Rightarrow> runCallOpts \<Rightarrow> EVMResult) \<Rightarrow> (buffer option \<Rightarrow> hardfork \<Rightarrow> int) \<Rightarrow>
   SimulationTransaction \<Rightarrow> block \<Rightarrow> blockchain \<Rightarrow> EVMResult" where
  "simulate_result runCall calculateIntrinsicGas tx parentBlock st =
     (let data = sim_data tx;
          gasLeft = sim_gas tx - calculateIntrinsicGas data (chain_hardfork (chain (opts st)))
      in if gasLeft \<ge> 0
         then (let stateTrie = (db_trie st, stateRoot (header parentBlock));
                   vm = createVmFromStateTrie stateTrie
                          (allowUnlimitedContractSize (chain (opts st))) st
               in runCall vm
                    \<lparr>rc_caller = sim_from tx, rc_data = sim_data tx, rc_gasPrice = sim_gasPrice tx,
                     rc_gasLimit = gasLeft, rc_to = sim_to tx, rc_value = sim_value tx,
                     rc_block = sim_block tx\<rparr>)
         else \<lparr>execResult = \<lparr>runState_programCounter = 0, exceptionError = Some OUT_OF_GAS,
                             returnValue = Some []\<rparr>\<rparr>)"

text \<open>\<open>Data.from (returnValue || "0x")\<close>: the bytes, none for a missing value.\<close>

definition returnData :: "EVMResult \<Rightarrow> buffer" where
  "returnData result = (case returnValue (execResult result) of None \<Rightarrow> [] | Some b \<Rightarrow> b)"

definition simulateTransaction ::
  "(VM \<Rightarrow> runCallOpts \<Rightarrow> EVMResult) \<Rightarrow> (buffer option \<Rightarrow> hardfork \<Rightarrow> int) \<Rightarrow>
   SimulationTransaction \<Rightarrow> block \<Rightarrow> blockchain \<Rightarrow> (RuntimeError_t + buffer) \<times> blockchain" where
  "simulateTransaction runCall calculateIntrinsicGas tx parentBlock st =
     (let result = simulate_result runCall calculateIntrinsicGas tx parentBlock st
      in if exceptionError (execResult result) \<noteq> None
         then (if vmErrorsOnRPCResponse (chain (opts st))
               then (Inl (RuntimeError [] result RETURN_VALUE), st)
               else (Inr (returnData result), st))
         else (Inr (returnData result), st))"

section \<open>Miner options and the start of the controller\<close>

text \<open>
  Modelled from the spec: \<open>utils.ACCOUNT_ZERO\<close> is not among the sources; the default
  coinbase is the zero address, twenty zero bytes.
\<close>

definition ACCOUNT_ZERO :: buffer where
  "ACCOUNT_ZERO = replicate 20 0"

definition MAX_SAFE_INTEGER :: nat where
  "MAX_SAFE_INTEGER = 2 ^ 53 - 1"

text \<open>The \<open>default\<close> entries of \<open>MinerOptions\<close>; \<open>extraData\<close> has none.\<close>

definition MinerOptions_default :: miner_options where
  "MinerOptions_default =
     \<lparr>blockTime = 0,
      gasPrice = 2000000000,
      blockGasLimit = 12000000,
      defaultTransactionGasLimit = 90000,
      callGasLimit = MAX_SAFE_INTEGER,
      miner_coinbase = CoinbaseAddress ACCOUNT_ZERO,
      legacyInstamine = False,
      miner_extraData = None\<rparr>"

text \<open>The \<open>normalize\<close> entry of \<open>extraData\<close>; the error carries the length it reports.\<close>

datatype option_error = Extra_exceeds_max_length nat

definition extraData_normalize :: "js_string \<Rightarrow> option_error + js_string" where
  "extraData_normalize rawType =
     (if length rawType > 32 then Inl (Extra_exceeds_max_length (length rawType))
      else Inr rawType)"


definition constructor_instamine :: "options \<Rightarrow> bool" where
  "constructor_instamine options = (blockTime (miner options) = 0 \<or> blockTime (miner options) \<le> 0)"


text \<open>
  The rest of the constructor on an empty database, up to the \<open>start\<close> event. The
  initial accounts are committed through the VM's state manager; the trie store and the
  root it leaves are the argument \<open>committed\<close>. \<open>blocks.next\<close> builds the genesis block
  from its header fields as \<open>createBlock\<close> does.
\<close>

definition initializeGenesisBlock ::
  "(header \<Rightarrow> buffer) \<Rightarrow> int \<Rightarrow> nat \<Rightarrow> blockchain \<Rightarrow> (block \<times> blockLogs) \<times> blockchain" where
  "initializeGenesisBlock H timestamp' blockGasLimit' st =
     (let genesis = createBlock (\<lambda>h. h
            \<lparr>timestamp := timestamp', gasLimit := blockGasLimit',
             stateRoot := trie_root st, number := 0\<rparr>)
      in ((genesis, \<lparr>bl_blockHash = H (header genesis), bl_blockNumber = None, bl_logs = []\<rparr>),
          putBlock H genesis st))"

definition Blockchain_start ::
  "(header \<Rightarrow> buffer) \<Rightarrow> int \<Rightarrow> options \<Rightarrow> buffer \<Rightarrow> (buffer \<rightharpoonup> buffer) \<times> buffer \<Rightarrow> blockchain" where
  "Blockchain_start H now options coinbaseAddress committed =
     (let st0 = \<lparr>opts = options,
                 instamine = constructor_instamine options,
                 bc_coinbase = coinbaseAddress,
                 blocks_latest = createBlock (\<lambda>h. h),
                 db_blocks = Map.empty,
                 db_transactions = Map.empty,
                 db_transactionReceipts = Map.empty,
                 db_blockLogs = Map.empty,
                 db_trie = fst committed,
                 trie_root = snd committed,
                 pool = [],
                 pool_paused = False,
                 miner_paused = False,
                 timeAdjustment = 0,
                 snapshots = \<lparr>snaps = [], blocks = [], unsubscribeFromBlocks = None\<rparr>,
                 trace = [],
                 logger = []\<rparr>;
          (firstBlockTime, st1) =
             (case chain_time (chain options) of
                Some t \<Rightarrow> (t div 1000, snd (setTime now t st0))
              | None \<Rightarrow> (currentTime now st0, st0));
          ((genesis, bl), st2) = initializeGenesisBlock H firstBlockTime (blockGasLimit (miner options)) st1
      in st2\<lparr>blocks_latest := genesis\<rparr>)"





text \<open>
  The test \<open>this.#instamine && options.miner.legacyInstamine\<close> of \<open>#emitNewBlock\<close> and
  \<open>queueTransaction\<close>: whether the legacy instamine behaviour applies.
\<close>

definition legacy_mode :: "blockchain \<Rightarrow> bool" where
  "legacy_mode st = (instamine st \<and> legacyInstamine (miner (opts st)))"

section \<open>Auxiliary definitions for the proofs\<close>

text \<open>The state of \<open>revert\<close> after the pauses, the clearing of the pool and the splice.\<close>

definition revert_paused :: "nat \<Rightarrow> blockchain \<Rightarrow> blockchain" where
  "revert_paused i st =
     st\<lparr>pool_paused := True, miner_paused := True, pool := [],
        snapshots := (snapshots st)\<lparr>snaps := take i (snaps (snapshots st))\<rparr>\<rparr>"

text \<open>The miner's blocks, handled one after the other.\<close>

definition mineBlocks :: "(header \<Rightarrow> buffer) \<Rightarrow> blockData list \<Rightarrow> blockchain \<Rightarrow> blockchain" where
  "mineBlocks H bds st = foldl (\<lambda>s bd. snd (handleNewBlockData H bd s)) st bds"

text \<open>Every number up to the head's has a block stored under it.\<close>

definition numbered_upto :: "blockchain \<Rightarrow> bool" where
  "numbered_upto st =
     (\<forall>n \<le> number (header (blocks_latest st)).
        \<exists>b. db_blocks st (ByNumber n) = Some b \<and> number (header b) = n)"

text \<open>
  A hash of headers that never gives two headers of different numbers the same hash, as
  a hash without collisions does.
\<close>

definition hash_tells_number :: "(header \<Rightarrow> buffer) \<Rightarrow> bool" where
  "hash_tells_number H = (\<forall>h1 h2. H h1 = H h2 \<longrightarrow> number h1 = number h2)"

text \<open>
  What \<open>revert\<close> relies on: \<open>unsubscribeFromBlocks\<close> is a function once a snapshot
  exists, and every hash on \<open>#snapshots.blocks\<close> has its block in the store.
\<close>

definition snapshots_wf :: "blockchain \<Rightarrow> bool" where
  "snapshots_wf st =
     ((snaps (snapshots st) \<noteq> [] \<longrightarrow> unsubscribeFromBlocks (snapshots st) \<noteq> None)
      \<and> (\<forall>h \<in> set (blocks (snapshots st)). db_blocks st (ByHash h) \<noteq> None))"

text \<open>
  The invariant behind it: the hashes on \<open>#snapshots.blocks\<close> are the hashes of stored
  blocks, none above the head, with numbers that fall along the list.
\<close>

definition snapshots_inv :: "(header \<Rightarrow> buffer) \<Rightarrow> blockchain \<Rightarrow> bool" where
  "snapshots_inv H st =
     ((snaps (snapshots st) \<noteq> [] \<longrightarrow> unsubscribeFromBlocks (snapshots st) \<noteq> None)
      \<and> (\<exists>bs. blocks (snapshots st) = map (\<lambda>b. H (header b)) bs
            \<and> (\<forall>b \<in> set bs. db_blocks st (ByHash (H (header b))) = Some b
                  \<and> number (header b) \<le> number (header (blocks_latest st)))
            \<and> sorted_wrt (\<lambda>a b. number (header b) < number (header a)) bs))"

text \<open>
  The calls that change the controller's state, and a run of them one after the other:
  \<open>snapshot\<close>, \<open>revert\<close>, a block of the miner going through fill, save and emit,
  \<open>increaseTime\<close> and \<open>setTime\<close> at the wall-clock time \<open>now\<close>.
\<close>

datatype call =
  Call_snapshot
| Call_revert "int option"
| Miner_block blockData
| Call_increaseTime int
| Call_setTime int int

fun perform :: "(header \<Rightarrow> buffer) \<Rightarrow> blockchain \<Rightarrow> call \<Rightarrow> blockchain" where
  "perform H st Call_snapshot = snd (snapshot st)"
| "perform H st (Call_revert snapshotId) = snd (revert H snapshotId st)"
| "perform H st (Miner_block bd) = snd (handleNewBlockData H bd st)"
| "perform H st (Call_increaseTime s) = snd (increaseTime s st)"
| "perform H st (Call_setTime now t) = snd (setTime now t st)"

definition run :: "(header \<Rightarrow> buffer) \<Rightarrow> call list \<Rightarrow> blockchain \<Rightarrow> blockchain" where
  "run H calls st = foldl (perform H) st calls"

text \<open>
  A trace in which every emission of a block comes right after the emission of the logs
  of the block with that hash, and no emission of logs stands without its block.
\<close>

fun announced_in_order :: "(header \<Rightarrow> buffer) \<Rightarrow> effect list \<Rightarrow> bool" where
  "announced_in_order H [] = True"
| "announced_in_order H (Emit_blockLogs bl # Emit_block b # es) =
     (bl_blockHash bl = H (header b) \<and> announced_in_order H es)"
| "announced_in_order H (Emit_blockLogs bl # es) = False"
| "announced_in_order H (Emit_block b # es) = False"
| "announced_in_order H (e # es) = announced_in_order H es"

text \<open>
  Two measures of the bytes of a string option, neither of which the code computes: the
  number of bytes of the string's UTF-8 encoding, with four bytes for a surrogate pair and
  three for a surrogate that stands alone, and the number of bytes that a string of
  hexadecimal digits after the prefix \<open>0x\<close> denotes, two digits to a byte.
\<close>

fun utf8_length :: "js_string \<Rightarrow> nat" where
  "utf8_length [] = 0"
| "utf8_length [u] = (if u < 0x80 then 1 else if u < 0x800 then 2 else 3)"
| "utf8_length (u # v # vs) =
     (if u < 0x80 then 1 + utf8_length (v # vs)
      else if u < 0x800 then 2 + utf8_length (v # vs)
      else if 0xD800 \<le> u \<and> u < 0xDC00 \<and> 0xDC00 \<le> v \<and> v < 0xE000
           then 4 + utf8_length vs
      else 3 + utf8_length (v # vs))"

definition hex_byte_length :: "js_string \<Rightarrow> nat" where
  "hex_byte_length s = (length s - 2 + 1) div 2"

subsection \<open>Concrete values\<close>

text \<open>
  A stand-in for the header hash that tells headers of different numbers apart, a set of
  options, and the controller started with them on an empty database at the wall-clock
  time of one million milliseconds.
\<close>

definition sample_hash :: "header \<Rightarrow> buffer" where
  "sample_hash h = replicate (number h) 1"

definition sample_options :: options where
  "sample_options =
     \<lparr>miner = MinerOptions_default,
      chain = \<lparr>vmErrorsOnRPCResponse = False, allowUnlimitedContractSize = False,
               chain_time = None, chain_hardfork = MuirGlacier\<rparr>\<rparr>"

definition sample_state :: blockchain where
  "sample_state = Blockchain_start sample_hash 1000000 sample_options ACCOUNT_ZERO (Map.empty, [1])"

definition sample_transaction :: transaction where
  "sample_transaction =
     \<lparr>tx_hash = [7], tx_raw = [], tx_type = 0, tx_from = [9],
      tx_receipt = \<lparr>contractAddress = None, receipt_gasUsed = 21000\<rparr>,
      tx_logs = [], execException = None\<rparr>"

definition sample_blockData :: blockData where
  "sample_blockData =
     \<lparr>bd_timestamp = 1001, bd_transactionsTrie = [2], bd_receiptTrie = [3],
      bd_gasUsed = 21000, blockTransactions = [sample_transaction]\<rparr>"

definition sample_call :: "int \<Rightarrow> SimulationTransaction" where
  "sample_call g =
     \<lparr>sim_from = [9], sim_to = None, sim_gas = g, sim_gasPrice = 1, sim_value = None,
      sim_data = None, sim_block = blocks_latest sample_state\<rparr>"

definition sample_intrinsicGas :: "buffer option \<Rightarrow> hardfork \<Rightarrow> int" where
  "sample_intrinsicGas data hf = 21000"

definition reverting_runCall :: "VM \<Rightarrow> runCallOpts \<Rightarrow> EVMResult" where
  "reverting_runCall vm params =
     \<lparr>execResult = \<lparr>runState_programCounter = 4, exceptionError = Some REVERT,
                     returnValue = Some [8]\<rparr>\<rparr>"

text \<open>
  The scenario of a snapshot, two mined blocks and an hour added to the clock.
\<close>

definition sample_calls :: "call list" where
  "sample_calls =
     [Call_snapshot, Miner_block sample_blockData, Miner_block sample_blockData,
      Call_increaseTime 3600]"

definition sample_history :: blockchain where
  "sample_history = run sample_hash sample_calls sample_state"

text \<open>
  Thirty-two times the letter e with an acute accent, and the prefix \<open>0x\<close> followed by
  sixty-four times the hexadecimal digit \<open>a\<close>.
\<close>

definition sample_accented :: js_string where
  "sample_accented = replicate 32 0xE9"

definition sample_hex :: js_string where
  "sample_hex = [0x30, 0x78] @ replicate 64 0x61"

text \<open>The controller started in legacy instamine mode.\<close>

definition legacy_state :: blockchain where
  "legacy_state =
     Blockchain_start sample_hash 1000000
       (sample_options\<lparr>miner := MinerOptions_default\<lparr>legacyInstamine := True\<rparr>\<rparr>)
       ACCOUNT_ZERO (Map.empty, [1])"

section \<open>Properties\<close>

subsection \<open>The clock\<close>

lemma currentTime_increaseTime:
  "currentTime now (snd (increaseTime s st))
     = (now + timeAdjustment st + (if s < 0 then 0 else s)) div 1000"
  by (simp add: currentTime_def increaseTime_def Let_def)

lemma currentTime_setTime: "currentTime now (snd (setTime now t st)) = t div 1000"
  by (simp add: currentTime_def setTime_def Let_def)

lemma readyNextBlock_timestamp:
  "timestamp (header (readyNextBlock H now prev None st)) = currentTime now st"
  by (simp add: readyNextBlock_def createBlock_def Let_def)

lemma Blockchain_start_fields:
  "opts (Blockchain_start H now options cb committed) = options"
  "instamine (Blockchain_start H now options cb committed) = constructor_instamine options"
  "timeAdjustment (Blockchain_start H now options cb committed)
     = (case chain_time (chain options) of None \<Rightarrow> 0 | Some t \<Rightarrow> t - now)"
  "snapshots (Blockchain_start H now options cb committed)
     = \<lparr>snaps = [], blocks = [], unsubscribeFromBlocks = None\<rparr>"
  "number (header (blocks_latest (Blockchain_start H now options cb committed))) = 0"
  "db_blocks (Blockchain_start H now options cb committed)
     = [ByNumber 0 \<mapsto> blocks_latest (Blockchain_start H now options cb committed),
        ByHash (H (header (blocks_latest (Blockchain_start H now options cb committed))))
          \<mapsto> blocks_latest (Blockchain_start H now options cb committed)]"
  by (simp_all add: Blockchain_start_def initializeGenesisBlock_def putBlock_def setTime_def
      createBlock_def Let_def split: option.splits prod.splits)

lemma sample_state_timeAdjustment: "timeAdjustment sample_state = 0"
  by (simp add: sample_state_def Blockchain_start_fields sample_options_def)

text \<open>
  Claim C10. For every negative number of seconds \<open>s\<close>, \<open>increaseTime s\<close> treats \<open>s\<close> as
  \<open>0\<close> and leaves the time-adjustment offset, and with it the whole state, unchanged; and
  both \<open>increaseTime\<close> and \<open>setTime\<close> return the total offset they leave in the state.
\<close>

theorem increaseTime_negative_and_returned_offset:
  "(s < 0 \<longrightarrow> increaseTime s st = (timeAdjustment st, st))
   \<and> fst (increaseTime s' st) = timeAdjustment (snd (increaseTime s' st))
   \<and> fst (setTime now t st) = timeAdjustment (snd (setTime now t st))"
  by (simp add: increaseTime_def setTime_def Let_def)

theorem increaseTime_negative_and_returned_offset_witness:
  "(-5::int) < 0 \<and> increaseTime (-5) sample_state = (0, sample_state)
   \<and> fst (increaseTime 7 sample_state) = timeAdjustment (snd (increaseTime 7 sample_state))
   \<and> fst (setTime 1000000 2000000 sample_state)
       = timeAdjustment (snd (setTime 1000000 2000000 sample_state))"
  using increaseTime_negative_and_returned_offset [of "-5" sample_state 7 1000000 2000000]
  by (simp add: sample_state_timeAdjustment)

text \<open>
  Claim C7. \<open>increaseTime s\<close> should make the timestamp of the next mined block \<open>s\<close>
  seconds later. The code adds \<open>s\<close> unscaled to the offset, which \<open>#currentTime\<close> and
  \<open>setTime\<close> treat as milliseconds. At the wall-clock time of one million milliseconds
  and with no offset, the candidate block that \<open>#readyNextBlock\<close> prepares has the
  timestamp 1000, and after \<open>increaseTime 5\<close> it still has the timestamp 1000, not 1005.
\<close>

theorem increaseTime_seconds_added_as_milliseconds:
  "timestamp (header (readyNextBlock sample_hash 1000000 (blocks_latest sample_state) None
      sample_state)) = 1000
   \<and> timestamp (header (readyNextBlock sample_hash 1000000 (blocks_latest sample_state) None
        (snd (increaseTime 5 sample_state)))) = 1000"
  by (simp add: readyNextBlock_timestamp currentTime_increaseTime sample_state_timeAdjustment)
     (simp add: currentTime_def sample_state_timeAdjustment)

subsection \<open>Miner options\<close>

lemma length_le_utf8_length: "length s \<le> utf8_length s"
  by (induction s rule: utf8_length.induct) auto

lemma utf8_length_replicate_two:
  "0x80 \<le> u \<Longrightarrow> u < 0x800 \<Longrightarrow> utf8_length (replicate n u) = 2 * n"
proof (induction n)
  case 0
  show ?case by simp
next
  case (Suc n)
  then show ?case by (cases n) (simp_all add: not_less [symmetric])
qed

text \<open>
  Claim C9, as the code has it. The \<open>normalize\<close> of \<open>miner.extraData\<close> refuses every
  value whose length exceeds 32 and returns every value whose length is at most 32
  unchanged, where the length is \<open>rawType.length\<close>, the number of UTF-16 code units of the
  string, not its number of bytes. A string has at least as many UTF-8 bytes as code
  units, so every value of at most 32 UTF-8 bytes is returned unchanged.
\<close>

theorem extraData_normalize_limit:
  "(32 < length rawType \<longrightarrow>
      extraData_normalize rawType = Inl (Extra_exceeds_max_length (length rawType)))
   \<and> (length rawType \<le> 32 \<longrightarrow> extraData_normalize rawType = Inr rawType)
   \<and> (utf8_length rawType \<le> 32 \<longrightarrow> extraData_normalize rawType = Inr rawType)"
  using length_le_utf8_length [of rawType] by (simp add: extraData_normalize_def)

theorem extraData_normalize_limit_witness:
  "32 < length (replicate 33 (97 :: 16 word))
   \<and> extraData_normalize (replicate 33 97) = Inl (Extra_exceeds_max_length 33)
   \<and> length (replicate 32 (97 :: 16 word)) \<le> 32
   \<and> utf8_length (replicate 32 97) \<le> 32
   \<and> extraData_normalize (replicate 32 97) = Inr (replicate 32 97)"
proof -
  have "utf8_length (replicate 32 97) \<le> 32" by code_simp
  with extraData_normalize_limit [of "replicate 33 97"] extraData_normalize_limit [of "replicate 32 97"]
  show ?thesis by simp
qed

text \<open>
  Claim C9 as stated fails, whichever way the bytes of the string are counted: the string
  of thirty-two accented letters has 64 bytes in UTF-8 and is returned unchanged, and the
  hexadecimal string that denotes 32 bytes has 66 code units and is refused.
\<close>

theorem extraData_normalize_counts_code_units:
  "utf8_length sample_accented = 64
   \<and> extraData_normalize sample_accented = Inr sample_accented
   \<and> hex_byte_length sample_hex = 32
   \<and> extraData_normalize sample_hex = Inl (Extra_exceeds_max_length 66)"
  by (simp add: sample_accented_def sample_hex_def utf8_length_replicate_two hex_byte_length_def
      extraData_normalize_def)




subsection \<open>Simulation\<close>

text \<open>
  Claim C6. When the intrinsic gas of a simulated transaction exceeds the gas it supplies,
  the result is the one built without the VM: \<open>OUT_OF_GAS\<close> as its only exception and an
  empty return value, whatever \<open>runCall\<close> is. When the result carries an exception,
  \<open>simulateTransaction\<close> throws a \<open>RuntimeError\<close> around the result if
  \<open>vmErrorsOnRPCResponse\<close> is set, and returns the result's return data if it is not.
\<close>

theorem simulateTransaction_errors:
  "(sim_gas tx < calculateIntrinsicGas (sim_data tx) (chain_hardfork (chain (opts st))) \<longrightarrow>
      simulate_result runCall calculateIntrinsicGas tx parentBlock st
        = \<lparr>execResult = \<lparr>runState_programCounter = 0, exceptionError = Some OUT_OF_GAS,
                          returnValue = Some []\<rparr>\<rparr>)
   \<and> (exceptionError (execResult (simulate_result runCall calculateIntrinsicGas tx parentBlock st)) \<noteq> None \<longrightarrow>
        fst (simulateTransaction runCall calculateIntrinsicGas tx parentBlock st)
          = (if vmErrorsOnRPCResponse (chain (opts st))
             then Inl (RuntimeError []
                        (simulate_result runCall calculateIntrinsicGas tx parentBlock st) RETURN_VALUE)
             else Inr (returnData
                        (simulate_result runCall calculateIntrinsicGas tx parentBlock st))))"
  by (simp add: simulate_result_def simulateTransaction_def Let_def)

lemma sample_state_opts: "opts sample_state = sample_options"
  by (simp add: sample_state_def Blockchain_start_fields)

lemma sample_simulate_result:
  "simulate_result reverting_runCall sample_intrinsicGas (sample_call 100000) b sample_state
     = \<lparr>execResult = \<lparr>runState_programCounter = 4, exceptionError = Some REVERT,
                       returnValue = Some [8]\<rparr>\<rparr>"
  by (simp add: simulate_result_def Let_def sample_call_def sample_intrinsicGas_def
      reverting_runCall_def)

theorem simulateTransaction_errors_witness:
  "sim_gas (sample_call 100) < sample_intrinsicGas (sim_data (sample_call 100))
      (chain_hardfork (chain (opts sample_state)))
   \<and> simulate_result reverting_runCall sample_intrinsicGas (sample_call 100)
        (blocks_latest sample_state) sample_state
        = \<lparr>execResult = \<lparr>runState_programCounter = 0, exceptionError = Some OUT_OF_GAS,
                          returnValue = Some []\<rparr>\<rparr>
   \<and> exceptionError (execResult (simulate_result reverting_runCall sample_intrinsicGas
        (sample_call 100000) (blocks_latest sample_state) sample_state)) \<noteq> None
   \<and> fst (simulateTransaction reverting_runCall sample_intrinsicGas (sample_call 100000)
        (blocks_latest sample_state) sample_state) = Inr [8]"
  using simulateTransaction_errors [of "sample_call 100" sample_intrinsicGas sample_state
          reverting_runCall "blocks_latest sample_state"]
        simulateTransaction_errors [of "sample_call 100000" sample_intrinsicGas sample_state
          reverting_runCall "blocks_latest sample_state"]
  by (simp add: sample_simulate_result sample_state_opts sample_options_def returnData_def)
     (simp add: sample_call_def sample_intrinsicGas_def)

text \<open>
  Claim C5. \<open>simulateTransaction\<close> leaves the controller's state as it was: the head
  block, the root of the head trie, the pool and the stores of the database are the same
  after the call, and no block is saved or announced. When the gas covers the intrinsic
  gas, the call runs on a VM made for it, whose state trie is the trie store opened at the
  parent block's state root; the outcome does not depend on the head block, the head trie
  root or the pool.
\<close>

theorem simulateTransaction_frame:
  "snd (simulateTransaction runCall calculateIntrinsicGas tx parentBlock st) = st
   \<and> (calculateIntrinsicGas (sim_data tx) (chain_hardfork (chain (opts st))) \<le> sim_gas tx \<longrightarrow>
        simulate_result runCall calculateIntrinsicGas tx parentBlock st
          = runCall \<lparr>vm_stateTrie = (db_trie st, stateRoot (header parentBlock)),
                     vm_allowUnlimitedContractSize = allowUnlimitedContractSize (chain (opts st)),
                     vm_getBlock = (\<lambda>n. db_blocks st (ByNumber n))\<rparr>
                    \<lparr>rc_caller = sim_from tx, rc_data = sim_data tx, rc_gasPrice = sim_gasPrice tx,
                     rc_gasLimit = sim_gas tx
                        - calculateIntrinsicGas (sim_data tx) (chain_hardfork (chain (opts st))),
                     rc_to = sim_to tx, rc_value = sim_value tx, rc_block = sim_block tx\<rparr>)
   \<and> fst (simulateTransaction runCall calculateIntrinsicGas tx parentBlock
            (st\<lparr>blocks_latest := b, trie_root := r, pool := p\<rparr>))
       = fst (simulateTransaction runCall calculateIntrinsicGas tx parentBlock st)"
  by (simp add: simulate_result_def simulateTransaction_def createVmFromStateTrie_def Let_def)

theorem simulateTransaction_frame_witness:
  "sample_intrinsicGas (sim_data (sample_call 100000)) (chain_hardfork (chain (opts sample_state)))
      \<le> sim_gas (sample_call 100000)
   \<and> snd (simulateTransaction reverting_runCall sample_intrinsicGas (sample_call 100000)
        (blocks_latest sample_state) sample_state) = sample_state
   \<and> simulate_result reverting_runCall sample_intrinsicGas (sample_call 100000)
        (blocks_latest sample_state) sample_state
       = \<lparr>execResult = \<lparr>runState_programCounter = 4, exceptionError = Some REVERT,
                         returnValue = Some [8]\<rparr>\<rparr>"
  using simulateTransaction_frame [of reverting_runCall sample_intrinsicGas "sample_call 100000"
          "blocks_latest sample_state" sample_state]
  by (simp add: sample_simulate_result) (simp add: sample_call_def sample_intrinsicGas_def)

subsection \<open>Filling, saving and announcing a block\<close>



lemma foldl_saveTransaction_field:
  assumes "\<And>s X Y Z. f (s\<lparr>db_transactions := X, db_transactionReceipts := Y, logger := Z\<rparr>) = f s"
  shows "f (snd (foldl (\<lambda>acc itx. saveTransaction bh bn ts itx acc) (bl, st) xs)) = f st"
proof (induction xs arbitrary: bl st)
  case Nil
  show ?case by simp
next
  case (Cons x xs)
  obtain bl' X Y Z where
    s: "saveTransaction bh bn ts x (bl, st)
          = (bl', st\<lparr>db_transactions := X, db_transactionReceipts := Y, logger := Z\<rparr>)"
    by (cases x) (simp add: saveTransaction_def Let_def)
  show ?case
    by (simp only: foldl_Cons s Cons.IH assms)
qed

lemmas saveTransactions_keeps =
  foldl_saveTransaction_field [where f = opts, simplified]
  foldl_saveTransaction_field [where f = instamine, simplified]
  foldl_saveTransaction_field [where f = bc_coinbase, simplified]
  foldl_saveTransaction_field [where f = blocks_latest, simplified]
  foldl_saveTransaction_field [where f = db_blocks, simplified]
  foldl_saveTransaction_field [where f = db_blockLogs, simplified]
  foldl_saveTransaction_field [where f = db_trie, simplified]
  foldl_saveTransaction_field [where f = trie_root, simplified]
  foldl_saveTransaction_field [where f = pool, simplified]
  foldl_saveTransaction_field [where f = pool_paused, simplified]
  foldl_saveTransaction_field [where f = miner_paused, simplified]
  foldl_saveTransaction_field [where f = timeAdjustment, simplified]
  foldl_saveTransaction_field [where f = snapshots, simplified]
  foldl_saveTransaction_field [where f = trace, simplified]

lemma foldl_saveTransaction_blockHash:
  "bl_blockHash (fst (foldl (\<lambda>acc itx. saveTransaction bh bn ts itx acc) (bl, st) xs)) = bl_blockHash bl"
proof (induction xs arbitrary: bl st)
  case Nil
  show ?case by simp
next
  case (Cons x xs)
  obtain bl' st' where
    s: "saveTransaction bh bn ts x (bl, st) = (bl', st')" and b: "bl_blockHash bl' = bl_blockHash bl"
    by (cases x) (simp add: saveTransaction_def Let_def)
  show ?case
    by (simp only: foldl_Cons s Cons.IH b)
qed

lemma saveNewBlock_fields:
  "fst (fst (saveNewBlock H b st)) = b"
  "bl_blockHash (snd (fst (saveNewBlock H b st))) = H (header b)"
  "bl_blockNumber (snd (fst (saveNewBlock H b st))) = Some (number (header b))"
  "blocks_latest (snd (saveNewBlock H b st)) = b"
  "opts (snd (saveNewBlock H b st)) = opts st"
  "instamine (snd (saveNewBlock H b st)) = instamine st"
  "snapshots (snd (saveNewBlock H b st)) = snapshots st"
  "trace (snd (saveNewBlock H b st)) = trace st"
  "timeAdjustment (snd (saveNewBlock H b st)) = timeAdjustment st"
  "trie_root (snd (saveNewBlock H b st)) = trie_root st"
  "bc_coinbase (snd (saveNewBlock H b st)) = bc_coinbase st"
  "pool (snd (saveNewBlock H b st)) = pool st"
  "db_blocks (snd (saveNewBlock H b st))
     = (db_blocks st)(ByNumber (number (header b)) \<mapsto> b, ByHash (H (header b)) \<mapsto> b)"
  by (simp_all add: saveNewBlock_def putBlock_def Let_def case_prod_beta saveTransactions_keeps
       foldl_saveTransaction_blockHash)


lemma emit_fields:
  "trace (emit_blockLogs bl st) = trace st @ [Emit_blockLogs bl]"
  "opts (emit_blockLogs bl st) = opts st"
  "instamine (emit_blockLogs bl st) = instamine st"
  "bc_coinbase (emit_blockLogs bl st) = bc_coinbase st"
  "trie_root (emit_blockLogs bl st) = trie_root st"
  "timeAdjustment (emit_blockLogs bl st) = timeAdjustment st"
  "opts (emit_block H b st) = opts st"
  "instamine (emit_block H b st) = instamine st"
  "bc_coinbase (emit_block H b st) = bc_coinbase st"
  "trie_root (emit_block H b st) = trie_root st"
  "timeAdjustment (emit_block H b st) = timeAdjustment st"
  "snapshots (emit_blockLogs bl st) = snapshots st"
  "blocks_latest (emit_blockLogs bl st) = blocks_latest st"
  "db_blocks (emit_blockLogs bl st) = db_blocks st"
  "trace (emit_block H b st) = trace st @ [Emit_block b]"
  "blocks_latest (emit_block H b st) = blocks_latest st"
  "db_blocks (emit_block H b st) = db_blocks st"
  "snaps (snapshots (emit_block H b st)) = snaps (snapshots st)"
  "unsubscribeFromBlocks (snapshots (emit_block H b st)) = unsubscribeFromBlocks (snapshots st)"
  "blocks (snapshots (emit_block H b st))
     = (if unsubscribeFromBlocks (snapshots st) = Some True then H (header b) # blocks (snapshots st)
        else blocks (snapshots st))"
  by (simp_all add: emit_blockLogs_def emit_block_def Let_def)

lemma handleNewBlockData_fields:
  "trace (snd (handleNewBlockData H bd st))
     = trace st
       @ map (\<lambda>tx. finalize ''confirmed''
                (if vmErrorsOnRPCResponse (chain (opts st)) then execException tx else None) tx)
           (blockTransactions bd)
       @ (if legacy_mode st then [NextTick] else [])
       @ [Emit_blockLogs (snd (fst (handleNewBlockData H bd st))),
          Emit_block (fst (fst (handleNewBlockData H bd st)))]"
  "fst (fst (handleNewBlockData H bd st)) = fillNewBlock H bd st"
  "blocks_latest (snd (handleNewBlockData H bd st)) = fillNewBlock H bd st"
  "bl_blockHash (snd (fst (handleNewBlockData H bd st))) = H (header (fillNewBlock H bd st))"
  "db_blocks (snd (handleNewBlockData H bd st))
     = (db_blocks st)(ByNumber (number (header (fillNewBlock H bd st))) \<mapsto> fillNewBlock H bd st,
                      ByHash (H (header (fillNewBlock H bd st))) \<mapsto> fillNewBlock H bd st)"
  "opts (snd (handleNewBlockData H bd st)) = opts st"
  "instamine (snd (handleNewBlockData H bd st)) = instamine st"
  "bc_coinbase (snd (handleNewBlockData H bd st)) = bc_coinbase st"
  "trie_root (snd (handleNewBlockData H bd st)) = trie_root st"
  "timeAdjustment (snd (handleNewBlockData H bd st)) = timeAdjustment st"
  "snaps (snapshots (snd (handleNewBlockData H bd st))) = snaps (snapshots st)"
  "unsubscribeFromBlocks (snapshots (snd (handleNewBlockData H bd st)))
     = unsubscribeFromBlocks (snapshots st)"
  "blocks (snapshots (snd (handleNewBlockData H bd st)))
     = (if unsubscribeFromBlocks (snapshots st) = Some True
        then H (header (fillNewBlock H bd st)) # blocks (snapshots st)
        else blocks (snapshots st))"
  apply (simp_all add: handleNewBlockData_def emitNewBlock_def Let_def case_prod_beta emit_fields saveNewBlock_fields legacy_mode_def)
  apply (simp_all add: fillNewBlock_def Let_def createBlock_def emit_block_def emit_blockLogs_def saveNewBlock_fields)
  done


lemma fillNewBlock_fields:
  "number (header (fillNewBlock H bd st)) = number (header (blocks_latest st)) + 1"
  "parentHash (header (fillNewBlock H bd st)) = H (header (blocks_latest st))"
  "stateRoot (header (fillNewBlock H bd st)) = trie_root st"
  "transactionsTrie (header (fillNewBlock H bd st)) = bd_transactionsTrie bd"
  "receiptTrie (header (fillNewBlock H bd st)) = bd_receiptTrie bd"
  "gasLimit (header (fillNewBlock H bd st)) = blockGasLimit (miner (opts st))"
  "coinbase (header (fillNewBlock H bd st)) = bc_coinbase st"
  "gasUsed (header (fillNewBlock H bd st)) = bd_gasUsed bd"
  "timestamp (header (fillNewBlock H bd st)) = bd_timestamp bd"
  "extraData (header (fillNewBlock H bd st)) = extraData emptyHeader"
  "transactions (fillNewBlock H bd st) = blockTransactions bd"
  by (simp_all add: fillNewBlock_def createBlock_def Let_def)

lemma mineBlocks_snoc:
  "mineBlocks H (bds @ [bd]) st = snd (handleNewBlockData H bd (mineBlocks H bds st))"
  by (simp add: mineBlocks_def)

lemma mineBlocks_number:
  "number (header (blocks_latest (mineBlocks H bds st)))
     = number (header (blocks_latest st)) + length bds"
  by (induction bds rule: rev_induct)
     (simp_all add: mineBlocks_snoc handleNewBlockData_fields fillNewBlock_fields, simp add: mineBlocks_def)

lemma numbered_upto_start: "numbered_upto (Blockchain_start H now options cb committed)"
  by (simp add: numbered_upto_def Blockchain_start_fields)

lemma numbered_upto_handle:
  assumes "numbered_upto st"
  shows "numbered_upto (snd (handleNewBlockData H bd st))"
  unfolding numbered_upto_def
proof (intro allI impI)
  fix n assume "n \<le> number (header (blocks_latest (snd (handleNewBlockData H bd st))))"
  then have n: "n \<le> number (header (blocks_latest st)) + 1"
    by (simp add: handleNewBlockData_fields fillNewBlock_fields)
  show "\<exists>b. db_blocks (snd (handleNewBlockData H bd st)) (ByNumber n) = Some b \<and> number (header b) = n"
  proof (cases "n = number (header (blocks_latest st)) + 1")
    case True
    then show ?thesis by (simp add: handleNewBlockData_fields fillNewBlock_fields)
  next
    case False
    with n have "n \<le> number (header (blocks_latest st))" by simp
    with assms obtain b where "db_blocks st (ByNumber n) = Some b" "number (header b) = n"
      by (auto simp add: numbered_upto_def)
    with False show ?thesis by (simp add: handleNewBlockData_fields fillNewBlock_fields)
  qed
qed

lemma numbered_upto_mineBlocks:
  "numbered_upto st \<Longrightarrow> numbered_upto (mineBlocks H bds st)"
  by (induction bds rule: rev_induct) (simp_all add: mineBlocks_snoc numbered_upto_handle, simp add: mineBlocks_def)

text \<open>
  Claim C4, as the code has it. The header that \<open>#fillNewBlock\<close> builds has the number of
  the previous head plus one, the hash of the previous head's header as parent hash, the
  current trie root as state root, the miner's two trie roots, the configured block gas
  limit and the controller's coinbase. Its extra-data is not the configured one: the
  controller passes none to \<open>createBlock\<close>, and the header is the same whatever
  \<open>miner.extraData\<close> is. The block becomes the head, so from the genesis block, which has
  number \<open>0\<close>, the head after \<open>length bds\<close> blocks has the number \<open>length bds\<close> and every
  number up to it has a block stored under it.
\<close>

theorem fillNewBlock_header:
  "number (header (fillNewBlock H bd st)) = number (header (blocks_latest st)) + 1
   \<and> parentHash (header (fillNewBlock H bd st)) = H (header (blocks_latest st))
   \<and> stateRoot (header (fillNewBlock H bd st)) = trie_root st
   \<and> transactionsTrie (header (fillNewBlock H bd st)) = bd_transactionsTrie bd
   \<and> receiptTrie (header (fillNewBlock H bd st)) = bd_receiptTrie bd
   \<and> gasLimit (header (fillNewBlock H bd st)) = blockGasLimit (miner (opts st))
   \<and> coinbase (header (fillNewBlock H bd st)) = bc_coinbase st
   \<and> extraData (header (fillNewBlock H bd st)) = extraData emptyHeader
   \<and> header (fillNewBlock H bd (st\<lparr>opts := (opts st)\<lparr>miner := (miner (opts st))\<lparr>miner_extraData := e\<rparr>\<rparr>\<rparr>))
       = header (fillNewBlock H bd st)
   \<and> blocks_latest (snd (handleNewBlockData H bd st)) = fillNewBlock H bd st
   \<and> number (header (blocks_latest (Blockchain_start H now options cb committed))) = 0
   \<and> number (header (blocks_latest (mineBlocks H bds (Blockchain_start H now options cb committed))))
       = length bds
   \<and> (\<forall>n \<le> length bds. \<exists>b.
         db_blocks (mineBlocks H bds (Blockchain_start H now options cb committed)) (ByNumber n) = Some b
         \<and> number (header b) = n)"
proof -
  have "numbered_upto (mineBlocks H bds (Blockchain_start H now options cb committed))"
    by (rule numbered_upto_mineBlocks [OF numbered_upto_start])
  then have "\<forall>n \<le> length bds. \<exists>b.
         db_blocks (mineBlocks H bds (Blockchain_start H now options cb committed)) (ByNumber n) = Some b
         \<and> number (header b) = n"
    by (simp add: numbered_upto_def mineBlocks_number Blockchain_start_fields)
  moreover have "header (fillNewBlock H bd (st\<lparr>opts := (opts st)\<lparr>miner := (miner (opts st))\<lparr>miner_extraData := e\<rparr>\<rparr>\<rparr>))
       = header (fillNewBlock H bd st)"
    by (simp add: fillNewBlock_def createBlock_def Let_def)
  ultimately show ?thesis
    by (simp add: fillNewBlock_fields handleNewBlockData_fields mineBlocks_number Blockchain_start_fields)
qed

lemma sample_state_latest_number: "number (header (blocks_latest sample_state)) = 0"
  by (simp add: sample_state_def Blockchain_start_fields)

theorem fillNewBlock_header_witness:
  "(2::nat) \<le> length [sample_blockData, sample_blockData]
   \<and> (\<exists>b. db_blocks (mineBlocks sample_hash [sample_blockData, sample_blockData] sample_state)
              (ByNumber 2) = Some b \<and> number (header b) = 2)
   \<and> number (header (fillNewBlock sample_hash sample_blockData sample_state)) = 1
   \<and> gasLimit (header (fillNewBlock sample_hash sample_blockData sample_state)) = 12000000
   \<and> transactionsTrie (header (fillNewBlock sample_hash sample_blockData sample_state)) = [2]"
proof -
  note t = fillNewBlock_header [of sample_hash sample_blockData sample_state None 1000000
      sample_options ACCOUNT_ZERO "(Map.empty, [1])" "[sample_blockData, sample_blockData]"]
  from t have "\<forall>n \<le> length [sample_blockData, sample_blockData]. \<exists>b.
      db_blocks (mineBlocks sample_hash [sample_blockData, sample_blockData] sample_state) (ByNumber n) = Some b
      \<and> number (header b) = n"
    unfolding sample_state_def by blast
  then have a: "\<exists>b. db_blocks (mineBlocks sample_hash [sample_blockData, sample_blockData] sample_state)
              (ByNumber 2) = Some b \<and> number (header b) = 2"
    by simp
  from t have b: "number (header (fillNewBlock sample_hash sample_blockData sample_state)) = 1"
    by (simp add: sample_state_latest_number)
  from t have c: "gasLimit (header (fillNewBlock sample_hash sample_blockData sample_state)) = 12000000"
    by (simp add: sample_state_opts sample_options_def MinerOptions_default_def)
  from t have d: "transactionsTrie (header (fillNewBlock sample_hash sample_blockData sample_state)) = [2]"
    by (simp add: sample_blockData_def)
  from a b c d show ?thesis by simp
qed

text \<open>
  Claim C4 as stated fails on the extra-data: with \<open>miner.extraData\<close> set to the three
  characters \<open>abc\<close>, the header that \<open>#fillNewBlock\<close> builds has no extra-data.
\<close>

theorem fillNewBlock_ignores_extraData:
  "miner_extraData (miner (opts (sample_state
       \<lparr>opts := sample_options\<lparr>miner := MinerOptions_default\<lparr>miner_extraData := Some [97, 98, 99]\<rparr>\<rparr>\<rparr>)))
     = Some [97, 98, 99]
   \<and> extraData (header (fillNewBlock sample_hash sample_blockData (sample_state
       \<lparr>opts := sample_options\<lparr>miner := MinerOptions_default\<lparr>miner_extraData := Some [97, 98, 99]\<rparr>\<rparr>\<rparr>)))
     = []"
  by (simp add: fillNewBlock_fields emptyHeader_def)

lemma handleNewBlockData_announces:
  "trace (snd (handleNewBlockData H bd st))
     = trace st
       @ map (\<lambda>tx. finalize ''confirmed''
                (if vmErrorsOnRPCResponse (chain (opts st)) then execException tx else None) tx)
           (blockTransactions bd)
       @ (if legacy_mode st then [NextTick] else [])
       @ [Emit_blockLogs (snd (fst (handleNewBlockData H bd st))),
          Emit_block (fst (fst (handleNewBlockData H bd st)))]
   \<and> fst (fst (handleNewBlockData H bd st)) = fillNewBlock H bd st
   \<and> bl_blockHash (snd (fst (handleNewBlockData H bd st))) = H (header (fillNewBlock H bd st))
   \<and> (\<exists>i j. length (trace st) \<le> i \<and> i < j \<and> j < length (trace (snd (handleNewBlockData H bd st)))
         \<and> trace (snd (handleNewBlockData H bd st)) ! i = Emit_blockLogs (snd (fst (handleNewBlockData H bd st)))
         \<and> trace (snd (handleNewBlockData H bd st)) ! j = Emit_block (fst (fst (handleNewBlockData H bd st))))"
proof -
  let ?r = "handleNewBlockData H bd st"
  let ?pre = "trace st
       @ map (\<lambda>tx. finalize ''confirmed''
                (if vmErrorsOnRPCResponse (chain (opts st)) then execException tx else None) tx)
           (blockTransactions bd)
       @ (if legacy_mode st then [NextTick] else [])"
  have tr: "trace (snd ?r) = ?pre @ [Emit_blockLogs (snd (fst ?r)), Emit_block (fst (fst ?r))]"
    by (simp add: handleNewBlockData_fields(1))
  have "length (trace st) \<le> length ?pre \<and> length ?pre < Suc (length ?pre)
      \<and> Suc (length ?pre) < length (trace (snd ?r))
      \<and> trace (snd ?r) ! length ?pre = Emit_blockLogs (snd (fst ?r))
      \<and> trace (snd ?r) ! Suc (length ?pre) = Emit_block (fst (fst ?r))"
    unfolding tr by (simp add: nth_append)
  then have "\<exists>i j. length (trace st) \<le> i \<and> i < j \<and> j < length (trace (snd ?r))
         \<and> trace (snd ?r) ! i = Emit_blockLogs (snd (fst ?r))
         \<and> trace (snd ?r) ! j = Emit_block (fst (fst ?r))"
    by blast
  with tr show ?thesis
    by (simp add: handleNewBlockData_fields(2,4))
qed


subsection \<open>Snapshots\<close>



lemma foldl_deleteTransaction_field:
  assumes "\<And>s X Y. f (s\<lparr>db_transactions := X, db_transactionReceipts := Y\<rparr>) = f s"
  shows "f (foldl deleteTransaction st txs) = f st"
  by (induction txs arbitrary: st) (simp_all add: deleteTransaction_def assms)

lemma deleteBlock_field:
  assumes "\<And>s X Y. f (s\<lparr>db_transactions := X, db_transactionReceipts := Y\<rparr>) = f s"
    and "\<And>s Z W. f (s\<lparr>db_blocks := Z, db_blockLogs := W\<rparr>) = f s"
  shows "f (deleteBlock H st b) = f st"
  by (simp add: deleteBlock_def Let_def assms foldl_deleteTransaction_field [of f])

lemma deleteBlockData_field:
  assumes "\<And>s X Y. f (s\<lparr>db_transactions := X, db_transactionReceipts := Y\<rparr>) = f s"
    and "\<And>s Z W. f (s\<lparr>db_blocks := Z, db_blockLogs := W\<rparr>) = f s"
  shows "f (deleteBlockData H bs st) = f st"
  unfolding deleteBlockData_def
  by (induction bs arbitrary: st) (simp_all add: deleteBlock_field [of f] assms)

lemmas deleteBlockData_keeps =
  deleteBlockData_field [where f = opts, simplified]
  deleteBlockData_field [where f = instamine, simplified]
  deleteBlockData_field [where f = bc_coinbase, simplified]
  deleteBlockData_field [where f = blocks_latest, simplified]
  deleteBlockData_field [where f = db_trie, simplified]
  deleteBlockData_field [where f = trie_root, simplified]
  deleteBlockData_field [where f = pool, simplified]
  deleteBlockData_field [where f = pool_paused, simplified]
  deleteBlockData_field [where f = miner_paused, simplified]
  deleteBlockData_field [where f = timeAdjustment, simplified]
  deleteBlockData_field [where f = snapshots, simplified]
  deleteBlockData_field [where f = trace, simplified]
  deleteBlockData_field [where f = logger, simplified]

lemma revert_blocks_True:
  assumes "revert_blocks H snap c st = (Inr True, st')" and "c = H (header (blocks_latest st))"
  shows "H (header (blocks_latest st')) = H (header (snap_block snap))
    \<and> timeAdjustment st' = snap_timeAdjustment snap
    \<and> snaps (snapshots st') = snaps (snapshots st)"
  using assms
  by (auto simp add: revert_blocks_def Let_def setStateRootSync_def deleteBlockData_keeps
      split: if_splits prod.splits sum.splits)

lemma revert_snapshot_cases:
  "revert_snapshot H i st =
     (if take i (snaps (snapshots st)) = []
      then (case unsubscribeFromBlocks (snapshots st) of
              None \<Rightarrow> (Inl Not_a_function, revert_paused i st)
            | Some u \<Rightarrow> revert_blocks H (snaps (snapshots st) ! i) (H (header (blocks_latest st)))
                ((revert_paused i st)\<lparr>snapshots := (snapshots (revert_paused i st))
                                        \<lparr>unsubscribeFromBlocks := Some False\<rparr>\<rparr>))
      else revert_blocks H (snaps (snapshots st) ! i) (H (header (blocks_latest st)))
             (revert_paused i st))"
  by (simp add: revert_snapshot_def revert_paused_def Let_def split: option.splits)

lemma revert_snapshot_True:
  assumes "revert_snapshot H i st = (Inr True, st')"
  shows "H (header (blocks_latest st')) = H (header (snap_block (snaps (snapshots st) ! i)))
    \<and> timeAdjustment st' = snap_timeAdjustment (snaps (snapshots st) ! i)
    \<and> snaps (snapshots st') = take i (snaps (snapshots st))"
proof (cases "take i (snaps (snapshots st)) = []")
  case True
  show ?thesis
  proof (cases "unsubscribeFromBlocks (snapshots st)")
    case None
    with True assms show ?thesis by (simp add: revert_snapshot_cases)
  next
    case (Some u)
    with True assms have
      "revert_blocks H (snaps (snapshots st) ! i) (H (header (blocks_latest st)))
         ((revert_paused i st)\<lparr>snapshots := (snapshots (revert_paused i st))
                                  \<lparr>unsubscribeFromBlocks := Some False\<rparr>\<rparr>) = (Inr True, st')"
      by (simp add: revert_snapshot_cases)
    from revert_blocks_True [OF this] show ?thesis by (simp add: revert_paused_def)
  qed
next
  case False
  with assms have
    "revert_blocks H (snaps (snapshots st) ! i) (H (header (blocks_latest st)))
       (revert_paused i st) = (Inr True, st')"
    by (simp add: revert_snapshot_cases)
  from revert_blocks_True [OF this] show ?thesis by (simp add: revert_paused_def)
qed

lemma revert_True:
  assumes "revert H (Some k) st = (Inr True, st')"
  shows "1 \<le> k \<and> nat k \<le> length (snaps (snapshots st))
    \<and> H (header (blocks_latest st')) = H (header (snap_block (snaps (snapshots st) ! (nat k - 1))))
    \<and> timeAdjustment st' = snap_timeAdjustment (snaps (snapshots st) ! (nat k - 1))
    \<and> snaps (snapshots st') = take (nat k - 1) (snaps (snapshots st))"
proof -
  from assms have k: "1 \<le> k" and len: "nat (k - 1) < length (snaps (snapshots st))"
    by (auto simp add: revert_def Let_def split: if_splits)
  have idx: "nat (k - 1) = nat k - 1" by (simp add: nat_diff_distrib')
  from assms k len have
    "revert_snapshot H (nat k - 1) (st\<lparr>logger := logger st @ [Log_reverting_to_snapshot k]\<rparr>) = (Inr True, st')"
    by (simp add: revert_def Let_def idx)
  from revert_snapshot_True [OF this] k len idx show ?thesis
    by simp
qed

lemma snapshot_result:
  "fst (snapshot st) = length (snaps (snapshots st)) + 1
   \<and> fst (snapshot st) = length (snaps (snapshots (snd (snapshot st))))
   \<and> snaps (snapshots (snd (snapshot st)))
       = snaps (snapshots st) @ [\<lparr>snap_block = blocks_latest st, snap_timeAdjustment = timeAdjustment st\<rparr>]"
  by (simp add: snapshot_def Let_def)


lemma hash_tells_numberD:
  "hash_tells_number H \<Longrightarrow> H h1 = H h2 \<Longrightarrow> number h1 = number h2"
  unfolding hash_tells_number_def by blast

lemma snapshots_inv_wf: "snapshots_inv H st \<Longrightarrow> snapshots_wf st"
  by (auto simp add: snapshots_inv_def snapshots_wf_def)

lemma walkBlockList_eq:
  "walkBlockList x hs = (takeWhile (\<lambda>h. h \<noteq> x) hs, dropWhile (\<lambda>h. h \<noteq> x) hs)"
  by (induction hs) simp_all

lemma promise_all_stored:
  "(\<forall>h \<in> set hs. db_blocks st (ByHash h) \<noteq> None)
   \<Longrightarrow> promise_all (map (getByHash st) hs) = Inr (map (\<lambda>h. the (db_blocks st (ByHash h))) hs)"
  by (induction hs) (auto simp add: getByHash_def)

lemma revert_blocks_wf:
  assumes "\<forall>h \<in> set (blocks (snapshots st)). db_blocks st (ByHash h) \<noteq> None"
  shows "fst (revert_blocks H snap c st) = Inr True"
proof -
  have "\<forall>h \<in> set (takeWhile (\<lambda>h. h \<noteq> H (header (snap_block snap))) (blocks (snapshots st))).
          db_blocks st (ByHash h) \<noteq> None"
    using assms by (meson set_takeWhileD)
  from promise_all_stored [OF this] show ?thesis
    by (simp add: revert_blocks_def Let_def walkBlockList_eq)
qed

lemma revert_outcome:
  assumes "snapshots_wf st"
  shows "fst (revert H sid st)
     = (case sid of None \<Rightarrow> Inl Invalid_snapshotId
        | Some k \<Rightarrow> Inr (1 \<le> k \<and> k \<le> int (length (snaps (snapshots st)))))"
proof (cases sid)
  case None
  then show ?thesis by (simp add: revert_def)
next
  case (Some k)
  show ?thesis
  proof (cases "1 \<le> k \<and> k \<le> int (length (snaps (snapshots st)))")
    case False
    with Some show ?thesis by (auto simp add: revert_def Let_def)
  next
    case True
    then have idx: "nat (k - 1) < length (snaps (snapshots st))" by linarith
    then have ne: "snaps (snapshots st) \<noteq> []" by auto
    with assms obtain u where u: "unsubscribeFromBlocks (snapshots st) = Some u"
      by (auto simp add: snapshots_wf_def)
    let ?st1 = "st\<lparr>logger := logger st @ [Log_reverting_to_snapshot k]\<rparr>"
    have st: "\<forall>h \<in> set (blocks (snapshots st)). db_blocks st (ByHash h) \<noteq> None"
      using assms by (simp add: snapshots_wf_def)
    have "fst (revert_snapshot H (nat (k - 1)) ?st1) = Inr True"
      using st u by (simp add: revert_snapshot_cases revert_blocks_wf revert_paused_def)
    with True idx Some show ?thesis
      by (simp add: revert_def Let_def)
  qed
qed


lemma snapshots_inv_start: "snapshots_inv H (Blockchain_start H now options cb committed)"
  by (simp add: snapshots_inv_def Blockchain_start_fields)

lemma snapshots_inv_fields:
  assumes "snapshots_inv H st"
    and "snaps (snapshots st') \<noteq> [] \<longrightarrow> unsubscribeFromBlocks (snapshots st') \<noteq> None"
    and "blocks (snapshots st') = blocks (snapshots st)"
    and "db_blocks st' = db_blocks st"
    and "blocks_latest st' = blocks_latest st"
  shows "snapshots_inv H st'"
  using assms by (simp add: snapshots_inv_def)

lemma snapshots_inv_unsubscribe:
  "snapshots_inv H st \<Longrightarrow> snaps (snapshots st) \<noteq> [] \<Longrightarrow> unsubscribeFromBlocks (snapshots st) \<noteq> None"
  by (simp add: snapshots_inv_def)

lemma snapshots_inv_snapshot:
  assumes "snapshots_inv H st"
  shows "snapshots_inv H (snd (snapshot st))"
proof (rule snapshots_inv_fields [OF assms])
  show "snaps (snapshots (snd (snapshot st))) \<noteq> [] \<longrightarrow>
        unsubscribeFromBlocks (snapshots (snd (snapshot st))) \<noteq> None"
    using snapshots_inv_unsubscribe [OF assms] by (auto simp add: snapshot_def Let_def)
qed (simp_all add: snapshot_def Let_def)

lemma snapshots_inv_increaseTime:
  assumes "snapshots_inv H st"
  shows "snapshots_inv H (snd (increaseTime s st))"
proof (rule snapshots_inv_fields [OF assms])
  show "snaps (snapshots (snd (increaseTime s st))) \<noteq> [] \<longrightarrow>
        unsubscribeFromBlocks (snapshots (snd (increaseTime s st))) \<noteq> None"
    using snapshots_inv_unsubscribe [OF assms] by (simp add: increaseTime_def Let_def)
qed (simp_all add: increaseTime_def Let_def)

lemma snapshots_inv_setTime:
  assumes "snapshots_inv H st"
  shows "snapshots_inv H (snd (setTime now t st))"
proof (rule snapshots_inv_fields [OF assms])
  show "snaps (snapshots (snd (setTime now t st))) \<noteq> [] \<longrightarrow>
        unsubscribeFromBlocks (snapshots (snd (setTime now t st))) \<noteq> None"
    using snapshots_inv_unsubscribe [OF assms] by (simp add: setTime_def Let_def)
qed (simp_all add: setTime_def Let_def)

lemma snapshots_inv_handleNewBlockData:
  assumes H: "hash_tells_number H" and inv: "snapshots_inv H st"
  shows "snapshots_inv H (snd (handleNewBlockData H bd st))"
proof -
  let ?f = "\<lambda>b. H (header b)"
  let ?b = "fillNewBlock H bd st"
  let ?st' = "snd (handleNewBlockData H bd st)"
  from inv obtain bs where
    l: "blocks (snapshots st) = map ?f bs"
    and stored: "\<forall>b \<in> set bs. db_blocks st (ByHash (?f b)) = Some b
                  \<and> number (header b) \<le> number (header (blocks_latest st))"
    and sorted: "sorted_wrt (\<lambda>a b. number (header b) < number (header a)) bs"
    and un: "snaps (snapshots st) \<noteq> [] \<longrightarrow> unsubscribeFromBlocks (snapshots st) \<noteq> None"
    by (auto simp add: snapshots_inv_def)
  have num: "number (header ?b) = number (header (blocks_latest st)) + 1"
    by (simp add: fillNewBlock_fields)
  have fresh: "?f b \<noteq> ?f ?b" if "b \<in> set bs" for b
  proof
    assume "?f b = ?f ?b"
    with H have "number (header b) = number (header ?b)" by (rule hash_tells_numberD)
    with stored that num show False by auto
  qed
  let ?bs' = "if unsubscribeFromBlocks (snapshots st) = Some True then ?b # bs else bs"
  have db: "db_blocks ?st' = (db_blocks st)(ByNumber (number (header ?b)) \<mapsto> ?b,
                                             ByHash (?f ?b) \<mapsto> ?b)"
    by (rule handleNewBlockData_fields)
  have latest: "blocks_latest ?st' = ?b"
    by (rule handleNewBlockData_fields)
  have old: "db_blocks ?st' (ByHash (?f b)) = Some b
             \<and> number (header b) \<le> number (header (blocks_latest ?st'))" if "b \<in> set bs" for b
  proof -
    from that stored have "db_blocks st (ByHash (?f b)) = Some b"
      and "number (header b) \<le> number (header (blocks_latest st))" by auto
    with fresh [OF that] num show ?thesis
      unfolding db latest by simp
  qed
  have new: "db_blocks ?st' (ByHash (?f ?b)) = Some ?b
             \<and> number (header ?b) \<le> number (header (blocks_latest ?st'))"
    unfolding db latest by simp
  have above: "number (header b) < number (header ?b)" if "b \<in> set bs" for b
    using that stored num by fastforce
  have 4: "snaps (snapshots ?st') \<noteq> [] \<longrightarrow> unsubscribeFromBlocks (snapshots ?st') \<noteq> None"
    using un by (simp only: handleNewBlockData_fields)
  show ?thesis
  proof (cases "unsubscribeFromBlocks (snapshots st) = Some True")
    case True
    then have 1: "blocks (snapshots ?st') = map ?f (?b # bs)"
      by (simp add: handleNewBlockData_fields l)
    have 2: "\<forall>b \<in> set (?b # bs). db_blocks ?st' (ByHash (?f b)) = Some b
             \<and> number (header b) \<le> number (header (blocks_latest ?st'))"
      using old new by (simp only: set_simps ball_simps) blast
    have 3: "sorted_wrt (\<lambda>a b. number (header b) < number (header a)) (?b # bs)"
      using sorted above by (simp only: sorted_wrt.simps) blast
    from 1 2 3 4 show ?thesis
      unfolding snapshots_inv_def by blast
  next
    case False
    then have 1: "blocks (snapshots ?st') = map ?f bs"
      by (simp add: handleNewBlockData_fields l)
    have 2: "\<forall>b \<in> set bs. db_blocks ?st' (ByHash (?f b)) = Some b
             \<and> number (header b) \<le> number (header (blocks_latest ?st'))"
      using old by blast
    from 1 2 sorted 4 show ?thesis
      unfolding snapshots_inv_def by blast
  qed
qed

lemma foldl_deleteTransaction_db_blocks:
  "db_blocks (foldl deleteTransaction st txs) = db_blocks st"
  by (rule foldl_deleteTransaction_field) simp

lemma deleteBlockData_db_blocks_keep:
  assumes "\<forall>b \<in> set bs. k \<noteq> ByNumber (number (header b)) \<and> k \<noteq> ByHash (H (header b))"
  shows "db_blocks (deleteBlockData H bs st) k = db_blocks st k"
  using assms unfolding deleteBlockData_def
  by (induction bs arbitrary: st)
     (simp_all add: deleteBlock_def Let_def foldl_deleteTransaction_db_blocks)

lemma promise_all_blocks:
  "(\<forall>b \<in> set ps. db_blocks st (ByHash (H (header b))) = Some b)
   \<Longrightarrow> promise_all (map (\<lambda>b. getByHash st (H (header b))) ps) = Inr ps"
  by (induction ps) (auto simp add: getByHash_def)

lemma revert_blocks_inv:
  assumes H: "hash_tells_number H" and inv: "snapshots_inv H st"
  shows "snapshots_inv H (snd (revert_blocks H snap c st))"
proof (cases "c = H (header (snap_block snap))")
  case True
  then have "snd (revert_blocks H snap c st)
      = st\<lparr>timeAdjustment := snap_timeAdjustment snap, miner_paused := False, pool_paused := False\<rparr>"
    by (simp add: revert_blocks_def Let_def)
  with inv show ?thesis by (simp add: snapshots_inv_def)
next
  case False
  let ?f = "\<lambda>b. H (header b)"
  let ?x = "H (header (snap_block snap))"
  from inv obtain bs where
    l: "blocks (snapshots st) = map ?f bs"
    and stored: "\<forall>b \<in> set bs. db_blocks st (ByHash (?f b)) = Some b
                  \<and> number (header b) \<le> number (header (blocks_latest st))"
    and sorted: "sorted_wrt (\<lambda>a b. number (header b) < number (header a)) bs"
    and un: "snaps (snapshots st) \<noteq> [] \<longrightarrow> unsubscribeFromBlocks (snapshots st) \<noteq> None"
    by (auto simp add: snapshots_inv_def)
  define ps where "ps = takeWhile (\<lambda>b. ?f b \<noteq> ?x) bs"
  define ss where "ss = dropWhile (\<lambda>b. ?f b \<noteq> ?x) bs"
  have bs: "bs = ps @ ss" by (simp add: ps_def ss_def)
  have walk: "walkBlockList ?x (blocks (snapshots st)) = (map ?f ps, map ?f ss)"
    by (simp add: walkBlockList_eq l takeWhile_map dropWhile_map ps_def ss_def comp_def)
  let ?st1 = "st\<lparr>snapshots := (snapshots st)\<lparr>blocks := map ?f ss\<rparr>\<rparr>"
  have "promise_all (map (\<lambda>b. getByHash st (H (header b))) ps) = Inr ps"
    by (rule promise_all_blocks) (use stored bs in auto)
  then have pa: "promise_all (map (getByHash st) (map ?f ps)) = Inr ps"
    by (simp add: comp_def)
  define st' where "st' = snd (revert_blocks H snap c st)"
  have st': "st' = (setStateRootSync (stateRoot (header (snap_block snap))) (deleteBlockData H ps ?st1))
                 \<lparr>blocks_latest := snap_block snap, timeAdjustment := snap_timeAdjustment snap,
                  miner_paused := False, pool_paused := False\<rparr>"
    using False unfolding st'_def revert_blocks_def Let_def walk by (simp add: pa del: map_map)
  have f1: "blocks (snapshots st') = map ?f ss"
    and f2: "blocks_latest st' = snap_block snap"
    and f3: "snaps (snapshots st') = snaps (snapshots st)"
    and f4: "unsubscribeFromBlocks (snapshots st') = unsubscribeFromBlocks (snapshots st)"
    and f5: "db_blocks st' = db_blocks (deleteBlockData H ps ?st1)"
    by (simp_all add: st' setStateRootSync_def deleteBlockData_keeps)
  from sorted have sorted_ss: "sorted_wrt (\<lambda>a b. number (header b) < number (header a)) ss"
    and below: "\<forall>p \<in> set ps. \<forall>s \<in> set ss. number (header s) < number (header p)"
    by (simp_all add: bs sorted_wrt_append)
  have kept: "db_blocks st' (ByHash (?f s)) = Some s" if "s \<in> set ss" for s
  proof -
    have "\<forall>b \<in> set ps. ByHash (?f s) \<noteq> ByNumber (number (header b)) \<and> ByHash (?f s) \<noteq> ByHash (H (header b))"
    proof
      fix b assume b: "b \<in> set ps"
      with below that have "number (header s) < number (header b)" by blast
      with hash_tells_numberD [OF H, of "header s" "header b"] have "?f s \<noteq> ?f b" by auto
      then show "ByHash (?f s) \<noteq> ByNumber (number (header b)) \<and> ByHash (?f s) \<noteq> ByHash (H (header b))"
        by simp
    qed
    then have "db_blocks st' (ByHash (?f s)) = db_blocks ?st1 (ByHash (?f s))"
      unfolding f5 by (rule deleteBlockData_db_blocks_keep)
    with stored that bs show ?thesis by simp
  qed
  have le: "number (header s) \<le> number (header (snap_block snap))" if "s \<in> set ss" for s
  proof -
    from that have ne: "ss \<noteq> []" by auto
    then have "\<not> (?f (hd ss) \<noteq> ?x)"
      unfolding ss_def by (rule hd_dropWhile)
    then have "?f (hd ss) = ?x" by simp
    with H have hd: "number (header (hd ss)) = number (header (snap_block snap))"
      by (rule hash_tells_numberD)
    from ne obtain t ts where ss_eq: "ss = t # ts" by (cases ss) auto
    with sorted_ss that have "number (header s) \<le> number (header t)" by auto
    with hd ss_eq show ?thesis by simp
  qed
  have "snapshots_inv H st'"
    unfolding snapshots_inv_def
  proof (intro conjI exI [of _ ss] ballI)
    show "snaps (snapshots st') \<noteq> [] \<longrightarrow> unsubscribeFromBlocks (snapshots st') \<noteq> None"
      using un by (simp add: f3 f4)
    show "blocks (snapshots st') = map ?f ss" by (rule f1)
    show "sorted_wrt (\<lambda>a b. number (header b) < number (header a)) ss" by (rule sorted_ss)
  next
    fix b assume "b \<in> set ss"
    then show "db_blocks st' (ByHash (H (header b))) = Some b"
      and "number (header b) \<le> number (header (blocks_latest st'))"
      by (simp_all add: kept le f2)
  qed
  then show ?thesis by (simp add: st'_def)
qed

lemma revert_snapshot_inv:
  assumes H: "hash_tells_number H" and inv: "snapshots_inv H st"
  shows "snapshots_inv H (snd (revert_snapshot H i st))"
proof -
  have p: "snapshots_inv H (revert_paused i st)"
  proof (rule snapshots_inv_fields [OF inv])
    show "snaps (snapshots (revert_paused i st)) \<noteq> [] \<longrightarrow>
          unsubscribeFromBlocks (snapshots (revert_paused i st)) \<noteq> None"
      using snapshots_inv_unsubscribe [OF inv] by (auto simp add: revert_paused_def)
  qed (simp_all add: revert_paused_def)
  have q: "snapshots_inv H ((revert_paused i st)\<lparr>snapshots := (snapshots (revert_paused i st))
                                        \<lparr>unsubscribeFromBlocks := Some False\<rparr>\<rparr>)"
    using p by (rule snapshots_inv_fields) simp_all
  show ?thesis
  proof (cases "take i (snaps (snapshots st)) = []")
    case True
    show ?thesis
    proof (cases "unsubscribeFromBlocks (snapshots st)")
      case None
      with True p show ?thesis by (simp add: revert_snapshot_cases)
    next
      case (Some u)
      with True revert_blocks_inv [OF H q] show ?thesis by (simp add: revert_snapshot_cases)
    qed
  next
    case False
    with revert_blocks_inv [OF H p] show ?thesis by (simp add: revert_snapshot_cases)
  qed
qed

lemma snapshots_inv_revert:
  assumes H: "hash_tells_number H" and inv: "snapshots_inv H st"
  shows "snapshots_inv H (snd (revert H sid st))"
proof (cases sid)
  case None
  with inv show ?thesis by (simp add: revert_def)
next
  case (Some k)
  have l: "snapshots_inv H (st\<lparr>logger := logger st @ [Log_reverting_to_snapshot k]\<rparr>)"
  proof (rule snapshots_inv_fields [OF inv])
    show "snaps (snapshots (st\<lparr>logger := logger st @ [Log_reverting_to_snapshot k]\<rparr>)) \<noteq> [] \<longrightarrow>
          unsubscribeFromBlocks (snapshots (st\<lparr>logger := logger st @ [Log_reverting_to_snapshot k]\<rparr>)) \<noteq> None"
      using snapshots_inv_unsubscribe [OF inv] by simp
  qed simp_all
  from Some l revert_snapshot_inv [OF H l] show ?thesis
    by (simp add: revert_def Let_def)
qed



lemma snapshots_inv_perform:
  "hash_tells_number H \<Longrightarrow> snapshots_inv H st \<Longrightarrow> snapshots_inv H (perform H st c)"
  by (cases c)
     (simp_all add: snapshots_inv_snapshot snapshots_inv_revert snapshots_inv_handleNewBlockData
        snapshots_inv_increaseTime snapshots_inv_setTime)

lemma snapshots_inv_run:
  "hash_tells_number H \<Longrightarrow> snapshots_inv H st \<Longrightarrow> snapshots_inv H (run H calls st)"
  unfolding run_def
  by (induction calls arbitrary: st) (simp_all add: snapshots_inv_perform)

lemma snapshots_wf_reachable:
  "hash_tells_number H \<Longrightarrow> snapshots_wf (run H calls (Blockchain_start H now options cb committed))"
  by (rule snapshots_inv_wf [OF snapshots_inv_run [OF _ snapshots_inv_start]])

lemma sample_hash_tells_number: "hash_tells_number sample_hash"
  unfolding hash_tells_number_def sample_hash_def
  by (metis length_replicate)

lemma promise_all_error:
  "promise_all (map (getByHash st) hs) = Inl e \<Longrightarrow> e \<noteq> Invalid_snapshotId"
  by (induction hs) (auto simp add: getByHash_def split: option.splits sum.splits)

lemma revert_blocks_error: "fst (revert_blocks H snap c st) \<noteq> Inl Invalid_snapshotId"
  by (auto simp add: revert_blocks_def Let_def split: prod.splits sum.splits dest: promise_all_error)

lemma revert_snapshot_error: "fst (revert_snapshot H i st) \<noteq> Inl Invalid_snapshotId"
  by (simp add: revert_snapshot_cases revert_blocks_error split: option.splits)

lemma revert_Invalid_snapshotId: "fst (revert H sid st) = Inl Invalid_snapshotId \<longleftrightarrow> sid = None"
  by (cases sid) (simp_all add: revert_def Let_def revert_snapshot_error)



lemma sample_history_fields:
  "snaps (snapshots sample_history)
     = [\<lparr>snap_block = blocks_latest sample_state, snap_timeAdjustment = 0\<rparr>]"
  "timeAdjustment sample_history = 3600"
  "number (header (blocks_latest sample_history)) = 2"
  by (simp_all add: sample_history_def sample_calls_def run_def increaseTime_def Let_def
      handleNewBlockData_fields fillNewBlock_fields snapshot_def sample_state_timeAdjustment
      sample_state_latest_number sample_state_def [symmetric])
     (simp_all add: sample_state_def Blockchain_start_fields)

lemma sample_history_wf: "snapshots_wf sample_history"
  unfolding sample_history_def sample_state_def
  by (rule snapshots_wf_reachable [OF sample_hash_tells_number])

lemma sample_history_start:
  "sample_history = run sample_hash sample_calls
     (Blockchain_start sample_hash 1000000 sample_options ACCOUNT_ZERO (Map.empty, [1]))"
  by (simp add: sample_history_def sample_state_def)

text \<open>
  Claim C1. In every state, so after every sequence of calls, \<open>snapshot\<close> appends the
  head and the time offset to the list and returns the new length of the list, the
  1-based position of the new entry. When \<open>revert\<close> of the id \<open>k\<close> returns true, \<open>k\<close> was
  the id of a live snapshot, the hash of the head afterwards is the hash of the block that
  snapshot \<open>k\<close> captured, the time offset is the one it captured, and the list holds the
  snapshots with ids below \<open>k\<close> and no others. In every state that a run of calls reaches
  from the start of the controller, \<open>revert\<close> of a live id does return true, given a
  header hash that tells headers of different numbers apart.
\<close>

theorem snapshot_ids_and_revert:
  "fst (snapshot st) = length (snaps (snapshots st)) + 1
   \<and> fst (snapshot st) = length (snaps (snapshots (snd (snapshot st))))
   \<and> snaps (snapshots (snd (snapshot st)))
       = snaps (snapshots st) @ [\<lparr>snap_block = blocks_latest st, snap_timeAdjustment = timeAdjustment st\<rparr>]
   \<and> (revert H (Some k) st = (Inr True, st') \<longrightarrow>
        1 \<le> k \<and> nat k \<le> length (snaps (snapshots st))
        \<and> H (header (blocks_latest st')) = H (header (snap_block (snaps (snapshots st) ! (nat k - 1))))
        \<and> timeAdjustment st' = snap_timeAdjustment (snaps (snapshots st) ! (nat k - 1))
        \<and> snaps (snapshots st') = take (nat k - 1) (snaps (snapshots st)))
   \<and> (hash_tells_number H \<and> 1 \<le> j
        \<and> j \<le> int (length (snaps (snapshots (run H calls (Blockchain_start H now options cb committed)))))
        \<longrightarrow> fst (revert H (Some j) (run H calls (Blockchain_start H now options cb committed))) = Inr True)"
proof -
  have "revert H (Some k) st = (Inr True, st') \<longrightarrow>
        1 \<le> k \<and> nat k \<le> length (snaps (snapshots st))
        \<and> H (header (blocks_latest st')) = H (header (snap_block (snaps (snapshots st) ! (nat k - 1))))
        \<and> timeAdjustment st' = snap_timeAdjustment (snaps (snapshots st) ! (nat k - 1))
        \<and> snaps (snapshots st') = take (nat k - 1) (snaps (snapshots st))"
    using revert_True [of H k st st'] by blast
  moreover have "hash_tells_number H \<and> 1 \<le> j
        \<and> j \<le> int (length (snaps (snapshots (run H calls (Blockchain_start H now options cb committed)))))
        \<longrightarrow> fst (revert H (Some j) (run H calls (Blockchain_start H now options cb committed))) = Inr True"
  proof (intro impI, elim conjE)
    assume h: "hash_tells_number H" and j: "1 \<le> j"
      "j \<le> int (length (snaps (snapshots (run H calls (Blockchain_start H now options cb committed)))))"
    from revert_outcome [OF snapshots_wf_reachable [OF h], where sid = "Some j" and H = H] j
    show "fst (revert H (Some j) (run H calls (Blockchain_start H now options cb committed))) = Inr True"
      by simp
  qed
  ultimately show ?thesis
    using snapshot_result [of st] by blast
qed

theorem snapshot_ids_and_revert_witness:
  "hash_tells_number sample_hash
   \<and> 1 \<le> int (length (snaps (snapshots sample_history)))
   \<and> revert sample_hash (Some 1) sample_history
     = (Inr True, snd (revert sample_hash (Some 1) sample_history))
   \<and> number (header (blocks_latest sample_history)) = 2
   \<and> timeAdjustment sample_history = 3600
   \<and> sample_hash (header (blocks_latest (snd (revert sample_hash (Some 1) sample_history))))
       = sample_hash (header (blocks_latest sample_state))
   \<and> timeAdjustment (snd (revert sample_hash (Some 1) sample_history)) = 0
   \<and> snaps (snapshots (snd (revert sample_hash (Some 1) sample_history))) = []
   \<and> fst (snapshot sample_history) = 2"
proof -
  note t = snapshot_ids_and_revert [where st = sample_history and H = sample_hash and k = 1
      and st' = "snd (revert sample_hash (Some 1) sample_history)" and j = 1
      and calls = sample_calls and now = 1000000 and options = sample_options
      and cb = ACCOUNT_ZERO and committed = "(Map.empty, [1])"]
  from t sample_hash_tells_number
  have "fst (revert sample_hash (Some 1) sample_history) = Inr True"
    by (simp add: sample_history_start [symmetric] sample_history_fields)
  then have r: "revert sample_hash (Some 1) sample_history
     = (Inr True, snd (revert sample_hash (Some 1) sample_history))"
    by (metis prod.collapse)
  from t r sample_hash_tells_number show ?thesis
    by (simp add: sample_history_fields)
qed

text \<open>
  Claim C2. For an id that is at least 1 and larger than the number of live snapshots,
  \<open>revert\<close> returns false and changes nothing but the log, to which it has written its
  line: the snapshot list, the pool, the head and the time offset are as before. For
  \<open>null\<close> and \<open>undefined\<close> it throws and changes nothing. It throws its own error for
  no other id; and in every state that a run of calls reaches from the start of the
  controller it ends with an error of any kind only for \<open>null\<close> and \<open>undefined\<close>, given
  a header hash that tells headers of different numbers apart.
\<close>

theorem revert_unknown_or_missing_id:
  "(1 \<le> k \<and> int (length (snaps (snapshots st))) < k \<longrightarrow>
      revert H (Some k) st = (Inr False, st\<lparr>logger := logger st @ [Log_reverting_to_snapshot k]\<rparr>))
   \<and> revert H None st = (Inl Invalid_snapshotId, st)
   \<and> (fst (revert H sid st) = Inl Invalid_snapshotId \<longleftrightarrow> sid = None)
   \<and> (hash_tells_number H \<longrightarrow>
        ((\<exists>e. fst (revert H sid (run H calls (Blockchain_start H now options cb committed))) = Inl e)
          \<longleftrightarrow> sid = None))"
proof -
  have a: "1 \<le> k \<and> int (length (snaps (snapshots st))) < k \<longrightarrow>
      revert H (Some k) st = (Inr False, st\<lparr>logger := logger st @ [Log_reverting_to_snapshot k]\<rparr>)"
    by (auto simp add: revert_def Let_def)
  have b: "revert H None st = (Inl Invalid_snapshotId, st)"
    by (simp add: revert_def)
  have c: "hash_tells_number H \<longrightarrow>
        ((\<exists>e. fst (revert H sid (run H calls (Blockchain_start H now options cb committed))) = Inl e)
          \<longleftrightarrow> sid = None)"
  proof
    assume "hash_tells_number H"
    from revert_outcome [OF snapshots_wf_reachable [OF this], where sid = sid and H = H]
    show "(\<exists>e. fst (revert H sid (run H calls (Blockchain_start H now options cb committed))) = Inl e)
          \<longleftrightarrow> sid = None"
      by (cases sid) simp_all
  qed
  from a b c revert_Invalid_snapshotId [of H sid st] show ?thesis by blast
qed

theorem revert_unknown_or_missing_id_witness:
  "(1::int) \<le> 99 \<and> int (length (snaps (snapshots sample_history))) < 99
   \<and> revert sample_hash (Some 99) sample_history
       = (Inr False, sample_history\<lparr>logger := logger sample_history @ [Log_reverting_to_snapshot 99]\<rparr>)
   \<and> hash_tells_number sample_hash
   \<and> (\<exists>e. fst (revert sample_hash None sample_history) = Inl e)
   \<and> \<not> (\<exists>e. fst (revert sample_hash (Some 1) sample_history) = Inl e)"
proof -
  have a: "revert sample_hash (Some 99) sample_history
       = (Inr False, sample_history\<lparr>logger := logger sample_history @ [Log_reverting_to_snapshot 99]\<rparr>)"
    using revert_unknown_or_missing_id [where k = 99 and st = sample_history and H = sample_hash]
    by (simp add: sample_history_fields)
  have b: "(\<exists>e. fst (revert sample_hash sid sample_history) = Inl e) \<longleftrightarrow> sid = None" for sid
    using revert_unknown_or_missing_id [where H = sample_hash and sid = sid
        and calls = sample_calls and now = 1000000 and options = sample_options
        and cb = ACCOUNT_ZERO and committed = "(Map.empty, [1])"]
      sample_hash_tells_number
    by (simp add: sample_history_start [symmetric])
  from a b [of None] b [of "Some 1"] sample_hash_tells_number show ?thesis
    by (simp add: sample_history_fields)
qed

subsection \<open>The order of the announcements\<close>

lemma announced_in_order_append:
  "announced_in_order H xs \<Longrightarrow> announced_in_order H ys \<Longrightarrow> announced_in_order H (xs @ ys)"
  by (induction H xs rule: announced_in_order.induct) simp_all

lemma announced_in_order_finalize:
  "announced_in_order H (map (finalize s e) txs)"
  by (induction txs) (simp_all add: finalize_def)

lemma announced_in_order_finalize':
  "announced_in_order H (map (\<lambda>tx. finalize s (g tx) tx) txs)"
  by (induction txs) (simp_all add: finalize_def)

lemma announced_in_order_handleNewBlockData:
  assumes "announced_in_order H (trace st)"
  shows "announced_in_order H (trace (snd (handleNewBlockData H bd st)))"
  unfolding handleNewBlockData_fields(1)
  by (intro announced_in_order_append assms announced_in_order_finalize')
     (simp_all add: handleNewBlockData_fields)

lemma revert_trace: "trace (snd (revert H sid st)) = trace st"
  by (auto simp add: revert_def Let_def revert_snapshot_cases revert_blocks_def revert_paused_def
      setStateRootSync_def deleteBlockData_keeps split: option.splits prod.splits sum.splits)

lemma announced_in_order_perform:
  "announced_in_order H (trace st) \<Longrightarrow> announced_in_order H (trace (perform H st c))"
  by (cases c)
     (simp_all add: announced_in_order_handleNewBlockData revert_trace snapshot_def
        increaseTime_def setTime_def Let_def)

lemma announced_in_order_run:
  "announced_in_order H (trace st) \<Longrightarrow> announced_in_order H (trace (run H calls st))"
  unfolding run_def
  by (induction calls arbitrary: st) (simp_all add: announced_in_order_perform)

lemma Blockchain_start_trace: "trace (Blockchain_start H now options cb committed) = []"
  by (simp add: Blockchain_start_def initializeGenesisBlock_def putBlock_def setTime_def
      createBlock_def Let_def split: option.splits prod.splits)

lemma announced_in_order_reachable:
  "announced_in_order H (trace (run H calls (Blockchain_start H now options cb committed)))"
  by (rule announced_in_order_run) (simp add: Blockchain_start_trace)


text \<open>
  Claim C3. Every block that goes through fill, save and emit is announced by
  \<open>blockLogs\<close> first and \<open>block\<close> second: what the pipeline adds to the trace is the
  finalization of the block's transactions, in legacy instamine mode the hand-over to the
  next tick, then the emission of the block's logs and, right after it, the emission of the
  block. The order is the order in which \<open>emit\<close> is called. In every run from the
  start of the controller, the trace keeps this order for every block.
\<close>

theorem blockLogs_emitted_before_block:
  "trace (snd (handleNewBlockData H bd st))
     = trace st
       @ map (\<lambda>tx. finalize ''confirmed''
                (if vmErrorsOnRPCResponse (chain (opts st)) then execException tx else None) tx)
           (blockTransactions bd)
       @ (if legacy_mode st then [NextTick] else [])
       @ [Emit_blockLogs (snd (fst (handleNewBlockData H bd st))),
          Emit_block (fst (fst (handleNewBlockData H bd st)))]
   \<and> fst (fst (handleNewBlockData H bd st)) = fillNewBlock H bd st
   \<and> bl_blockHash (snd (fst (handleNewBlockData H bd st))) = H (header (fillNewBlock H bd st))
   \<and> (\<exists>i j. length (trace st) \<le> i \<and> i < j \<and> j < length (trace (snd (handleNewBlockData H bd st)))
         \<and> trace (snd (handleNewBlockData H bd st)) ! i = Emit_blockLogs (snd (fst (handleNewBlockData H bd st)))
         \<and> trace (snd (handleNewBlockData H bd st)) ! j = Emit_block (fst (fst (handleNewBlockData H bd st))))
   \<and> announced_in_order H (trace (run H calls (Blockchain_start H now options cb committed)))"
  using handleNewBlockData_announces [of H bd st] announced_in_order_reachable [of H calls now options cb committed]
  by blast

lemma legacy_state_mode: "legacy_mode legacy_state" "trace legacy_state = []"
  "vmErrorsOnRPCResponse (chain (opts legacy_state)) = False"
  by (simp_all add: legacy_state_def legacy_mode_def Blockchain_start_fields Blockchain_start_trace
      constructor_instamine_def sample_options_def MinerOptions_default_def)

theorem blockLogs_emitted_before_block_witness:
  "trace (snd (handleNewBlockData sample_hash sample_blockData legacy_state))
     = [Finalize [7] ''confirmed'' None, NextTick,
        Emit_blockLogs (snd (fst (handleNewBlockData sample_hash sample_blockData legacy_state))),
        Emit_block (fillNewBlock sample_hash sample_blockData legacy_state)]
   \<and> bl_blockHash (snd (fst (handleNewBlockData sample_hash sample_blockData legacy_state)))
       = sample_hash (header (fillNewBlock sample_hash sample_blockData legacy_state))"
  using blockLogs_emitted_before_block [of sample_hash sample_blockData legacy_state]
  by (simp add: legacy_state_mode sample_blockData_def sample_transaction_def finalize_def)


end
